theory Spec2Isabelle
  imports Main "HOL-Library.Word"
begin

section \<open>Common data of the node\<close>

text \<open>
  Machine integers are words of the width the Go source declares: \<open>uint64\<close> heights,
  nonces and chain numbers, \<open>uint16\<close> message codes, \<open>int32\<close> atomic flags.
  Go's \<open>uint\<close> (shard numbers) is 64 bits wide on the platforms the node runs on.
  A \<open>common.Hash\<close> is a 32-byte array; it is modelled as the 256-bit word its bytes
  spell in big-endian order, so \<open>big.Int.SetBytes(hash.Bytes())\<close> is \<open>uint\<close>.
  \<open>*big.Int\<close> is \<open>int\<close>.
\<close>

type_synonym u64 = "64 word"
type_synonym u16 = "16 word"
type_synonym i32 = "32 word"
type_synonym byte = "8 word"
type_synonym bytes = "byte list"
type_synonym Hash = "256 word"
type_synonym Address = bytes

definition EmptyHash :: Hash where
  "EmptyHash = 0"

definition IsEmpty :: "Hash \<Rightarrow> bool" where
  "IsEmpty h = (h = EmptyHash)"

text \<open>
  \<open>NumOfChains\<close> of package \<open>seele\<close> is the length of the arrays that
  \<open>SeeleService\<close> returns through the miner's \<open>SeeleBackend\<close> interface, whose
  arrays have length \<open>numOfChains = 3\<close>; Go array types of different length are
  different types, so both constants are 3.
\<close>

definition NumOfChains :: nat where
  "NumOfChains = 3"

text \<open>Go errors are values; \<open>fmt.Errorf\<close> wrapping keeps the wrapped error.\<close>

datatype error =
    ErrNotFound
  | ErrStore string
  | ErrDeserialize string
  | ErrGenesisHashMismatch
  | ErrGenesisNotFound
  | ErrShardNumberMismatch
  | ErrInvalidGenesisHeight u64
  | ErrFailedToGetGenesisBlock error
  | ErrFailedToGetGenesisExtraData error
  | ErrMinerIsRunning
  | ErrMinerIsStopped
  | ErrNodeIsSyncing
  | ErrIsSynchronising
  | ErrFailedToGetChainHeader error
  | ErrOther string

record Transaction =
  tx_Hash :: Hash
  tx_From :: Address

record BlockHeader =
  PreviousBlockHash :: Hash
  Creator :: Address
  TxHash :: Hash
  Difficulty :: int
  Height :: u64
  CreateTimestamp :: int
  Nonce :: u64
  ExtraData :: bytes

record Block =
  HeaderHash :: Hash
  Header :: BlockHeader
  Transactions :: "Transaction list"
  ChainNum :: u64

section \<open>Genesis (package core)\<close>

definition genesisBlockHeight :: u64 where
  "genesisBlockHeight = 0"

record GenesisInfo =
  Accounts :: "(Address \<times> int) list"
  Difficult :: "64 word"
  ShardNumber :: u64

record genesisExtraData =
  extra_ShardNumber :: u64

record Genesis =
  header :: BlockHeader
  Info :: GenesisInfo

text \<open>
  The collaborators of package \<open>core\<close> that are outside the repository's sources:
  the header hash (\<open>BlockHeader.Hash\<close>), the serializer of package \<open>common\<close>
  at type \<open>genesisExtraData\<close>, the merkle root of no transactions and the empty
  address. They are parameters of the model.
\<close>

record core_ext =
  Hash_of_header :: "BlockHeader \<Rightarrow> Hash"
  SerializePanic :: "genesisExtraData \<Rightarrow> bytes"
  Deserialize :: "bytes \<Rightarrow> error + genesisExtraData"
  MerkleRootHash_nil :: Hash
  EmptyAddress :: Address

text \<open>
  \<open>GetGenesis\<close>: \<open>info.Difficult\<close> is an \<open>int64\<close>, read with \<open>sint\<close>; the
  assignment \<open>info.Difficult = 1\<close> changes the function's copy, which is the one
  stored in the field \<open>Info\<close>.
\<close>

definition GetGenesis :: "core_ext \<Rightarrow> GenesisInfo \<Rightarrow> Genesis" where
  "GetGenesis ext info0 =
     (let info = (if sint (Difficult info0) \<le> 0 then info0\<lparr>Difficult := 1\<rparr> else info0);
          extraData = \<lparr>extra_ShardNumber = ShardNumber info\<rparr>
      in \<lparr>header = \<lparr>PreviousBlockHash = EmptyHash,
                      Creator = EmptyAddress ext,
                      TxHash = MerkleRootHash_nil ext,
                      Difficulty = sint (Difficult info),
                      Height = genesisBlockHeight,
                      CreateTimestamp = 0,
                      Nonce = 1,
                      ExtraData = SerializePanic ext extraData\<rparr>,
          Info = info\<rparr>)"

definition GetShardNumber :: "Genesis \<Rightarrow> u64" where
  "GetShardNumber genesis = ShardNumber (Info genesis)"

definition getGenesisExtraData :: "core_ext \<Rightarrow> Block \<Rightarrow> error + genesisExtraData" where
  "getGenesisExtraData ext genesisBlock =
     (if Height (Header genesisBlock) \<noteq> genesisBlockHeight
      then Inl (ErrInvalidGenesisHeight (Height (Header genesisBlock)))
      else Deserialize ext (ExtraData (Header genesisBlock)))"

text \<open>
  \<open>store.BlockchainStore\<close> is an interface. A store is modelled by what its methods
  answer, and the writes made through it are collected in the order of the calls.
  \<open>InitializeAndValidate\<close> makes at most one write and reads nothing after it.
\<close>

record BlockchainStore =
  GetBlockHash :: "u64 \<Rightarrow> error + Hash"
  GetBlock :: "Hash \<Rightarrow> error + Block"
  PutBlockHeader :: "Hash \<Rightarrow> BlockHeader \<Rightarrow> int \<Rightarrow> bool \<Rightarrow> error option"

datatype store_write = PutBlockHeaderCall Hash BlockHeader int bool

definition store_genesis :: "core_ext \<Rightarrow> Genesis \<Rightarrow> BlockchainStore \<Rightarrow> error option \<times> store_write list" where
  "store_genesis ext genesis bcStore =
     (let h = Hash_of_header ext (header genesis)
      in (PutBlockHeader bcStore h (header genesis) (Difficulty (header genesis)) True,
          [PutBlockHeaderCall h (header genesis) (Difficulty (header genesis)) True]))"

definition InitializeAndValidate ::
  "core_ext \<Rightarrow> Genesis \<Rightarrow> BlockchainStore \<Rightarrow> error option \<times> store_write list" where
  "InitializeAndValidate ext genesis bcStore =
     (case GetBlockHash bcStore genesisBlockHeight of
        Inl err \<Rightarrow>
          if err = ErrNotFound then store_genesis ext genesis bcStore
          else (Some err, [])
      | Inr storedGenesisHash \<Rightarrow>
          (case GetBlock bcStore storedGenesisHash of
             Inl err \<Rightarrow> (Some (ErrFailedToGetGenesisBlock err), [])
           | Inr storedGenesis \<Rightarrow>
               (case getGenesisExtraData ext storedGenesis of
                  Inl err \<Rightarrow> (Some (ErrFailedToGetGenesisExtraData err), [])
                | Inr data \<Rightarrow>
                    if extra_ShardNumber data \<noteq> ShardNumber (Info genesis)
                    then (Some ErrShardNumberMismatch, [])
                    else if Hash_of_header ext (header genesis) \<noteq> storedGenesisHash
                    then (Some ErrGenesisHashMismatch, [])
                    else (None, []))))"

text \<open>
  A small concrete instance, used to run the definitions: a serializer that writes the
  shard number as one byte, a header hash that tells the example headers apart, a store
  that holds one genesis header and a store that holds nothing.
\<close>

definition example_ext :: core_ext where
  "example_ext =
     \<lparr>Hash_of_header = (\<lambda>h. word_of_int (Difficulty h) * 256 + word_of_nat (length (ExtraData h)) * 16
                               + (case ExtraData h of [] \<Rightarrow> 0 | b # _ \<Rightarrow> ucast b)),
      SerializePanic = (\<lambda>d. [ucast (extra_ShardNumber d)]),
      Deserialize = (\<lambda>bs. case bs of [b] \<Rightarrow> Inr \<lparr>extra_ShardNumber = ucast b\<rparr>
                                | _ \<Rightarrow> Inl (ErrDeserialize ''unexpected payload'')),
      MerkleRootHash_nil = 7,
      EmptyAddress = replicate 20 0\<rparr>"

definition example_info :: "u64 \<Rightarrow> GenesisInfo" where
  "example_info shard = \<lparr>Accounts = [], Difficult = 0, ShardNumber = shard\<rparr>"

definition store_holding :: "core_ext \<Rightarrow> Genesis \<Rightarrow> BlockchainStore" where
  "store_holding ext g =
     \<lparr>GetBlockHash = (\<lambda>n. if n = 0 then Inr (Hash_of_header ext (header g)) else Inl ErrNotFound),
      GetBlock = (\<lambda>h. if h = Hash_of_header ext (header g)
                       then Inr \<lparr>HeaderHash = h, Header = header g, Transactions = [], ChainNum = 0\<rparr>
                       else Inl ErrNotFound),
      PutBlockHeader = (\<lambda>h hd td isHead. None)\<rparr>"

definition empty_store :: BlockchainStore where
  "empty_store =
     \<lparr>GetBlockHash = (\<lambda>n. Inl ErrNotFound),
      GetBlock = (\<lambda>h. Inl ErrNotFound),
      PutBlockHeader = (\<lambda>h hd td isHead. None)\<rparr>"


section \<open>Miner (package miner)\<close>

definition numOfChains :: nat where
  "numOfChains = 3"

definition StartHeightOfGetMiningKeyFromChain :: u64 where
  "StartHeightOfGetMiningKeyFromChain = 4"

definition longDist :: nat where
  "longDist = 3"

definition shortDist :: nat where
  "shortDist = 1"

record MiningDataPack =
  Heights :: "u64 list"
  TxHashes :: "Hash list"
  dp_Nonce :: u64

text \<open>
  What a function of the miner can come to: it returns, it panics (a Go run-time
  panic ends the process), or the model's fuel ran out while a loop was still running.
\<close>

datatype 'a outcome = Ok 'a | Panic string | OutOfFuel

datatype miner_effect = GoWaitBlock | CloseStopChan nat

text \<open>
  The fields of \<open>Miner\<close> that the functions below read or write. \<open>stopChan\<close> is
  nil (\<open>None\<close>) or a channel, named by a number; \<open>closed_chans\<close> are the channels
  closed so far and \<open>next_chan\<close> names the next channel \<open>make\<close> creates.
  \<open>rand_pos\<close> counts the random draws made and \<open>polls\<close> the times the stop
  channel was polled; \<open>effects\<close> lists the goroutines started and channels closed.
\<close>

record Miner =
  coinbase :: Address
  mining :: i32
  canStart :: i32
  stopped :: i32
  stopChan :: "nat option"
  isFirstDownloader :: i32
  threads :: int
  isFirstBlockPrepared :: i32
  miningKeyHash :: Hash
  closed_chans :: "nat list"
  next_chan :: nat
  rand_pos :: nat
  polls :: nat
  effects :: "miner_effect list"

text \<open>
  The miner's collaborators outside the repository's sources, and what the sequential
  model cannot decide: the chains (head height and block by height of chain \<open>i\<close>),
  the random source (the stream of raw draws behind \<open>math/rand\<close>), the hashes of
  package \<open>crypto\<close>, \<open>pow.GetMiningTarget\<close>, whether the stop channel is found
  closed at the \<open>k\<close>-th poll (another goroutine closes it), and the error that
  \<open>prepareNewBlock\<close> returns: it works on the state database, \<open>pow.GetDifficult\<close>
  and the task of the block-mining engine, and writes none of the fields above.
\<close>

record miner_env =
  chain_height :: "nat \<Rightarrow> u64"
  chain_GetBlockByHeight :: "nat \<Rightarrow> u64 \<Rightarrow> error + Block"
  rand_draw :: "nat \<Rightarrow> nat"
  MustHash :: "MiningDataPack \<Rightarrow> Hash"
  HashBytes :: "bytes \<Rightarrow> Hash"
  GetMiningTarget :: "int \<Rightarrow> int"
  stop_closed :: "nat \<Rightarrow> bool"
  prepareNewBlock :: "u64 \<Rightarrow> Miner \<Rightarrow> error option"

definition NewMiner :: "Address \<Rightarrow> Miner" where
  "NewMiner addr =
     \<lparr>coinbase = addr, mining = 0, canStart = 1, stopped = 0, stopChan = None,
      isFirstDownloader = 1, threads = 1, isFirstBlockPrepared = 0, miningKeyHash = 0,
      closed_chans = [], next_chan = 0, rand_pos = 0, polls = 0, effects = []\<rparr>"

text \<open>\<open>rand.Intn(n)\<close> panics for \<open>n \<le> 0\<close> and returns a value below \<open>n\<close> otherwise.\<close>

definition Intn :: "miner_env \<Rightarrow> int \<Rightarrow> Miner \<Rightarrow> (nat \<times> Miner) outcome" where
  "Intn env n m =
     (if n \<le> 0 then Panic ''invalid argument to Intn''
      else Ok (rand_draw env (rand_pos m) mod nat n, m\<lparr>rand_pos := Suc (rand_pos m)\<rparr>))"

text \<open>A \<open>select\<close> on the stop channel with a \<open>default\<close> branch: one poll.\<close>

definition poll_stop :: "miner_env \<Rightarrow> Miner \<Rightarrow> bool \<times> Miner" where
  "poll_stop env m = (stop_closed env (polls m), m\<lparr>polls := Suc (polls m)\<rparr>)"

definition int2bytes :: "int \<Rightarrow> bytes" where
  "int2bytes num =
     (let w = (word_of_int num :: 32 word)
      in [ucast (drop_bit 24 w), ucast (drop_bit 16 w), ucast (drop_bit 8 w), ucast w])"

subsection \<open>Key mining\<close>

datatype key_exit =
    Aborted
  | NonceFoundElsewhere
  | NonceFound Hash
  | NonceFoundAborted Hash
  | Outage
  | OutageAborted

text \<open>
  The objects the key-mining threads share: the data pack (its \<open>Nonce\<close> is
  overwritten before every hash) and the flag \<open>isNonceFound\<close>; \<open>hashed\<close> lists
  the nonces hashed, in order.
\<close>

record key_mining =
  dataPack :: MiningDataPack
  isNonceFound :: i32
  hashed :: "u64 list"

text \<open>
  The loop of \<open>StartMiningForKey\<close>; one unit of fuel is one iteration. The result
  \<open>None\<close> says that the loop was still running when the fuel ran out.
\<close>

fun StartMiningForKey_loop ::
  "nat \<Rightarrow> miner_env \<Rightarrow> int \<Rightarrow> u64 \<Rightarrow> u64 \<Rightarrow> u64 \<Rightarrow> u64 \<Rightarrow> Miner \<times> key_mining
     \<Rightarrow> key_exit option \<times> Miner \<times> key_mining" where
  "StartMiningForKey_loop 0 env target seed mn mx nonce (m, k) = (None, m, k)"
| "StartMiningForKey_loop (Suc fuel) env target seed mn mx nonce (m, k) =
     (let (stop, m1) = poll_stop env m in
      if stop then (Some Aborted, m1, k)
      else if isNonceFound k \<noteq> 0 then (Some NonceFoundElsewhere, m1, k)
      else
        let dp = (dataPack k)\<lparr>dp_Nonce := nonce\<rparr>;
            hash = MustHash env dp;
            k1 = k\<lparr>dataPack := dp, hashed := hashed k @ [nonce]\<rparr>
        in if uint hash \<le> target then
             (let m2 = m1\<lparr>miningKeyHash := hash\<rparr>;
                  (stop2, m3) = poll_stop env m2
              in if stop2 then (Some (NonceFoundAborted hash), m3, k1)
                 else (Some (NonceFound hash), m3, k1\<lparr>isNonceFound := 1\<rparr>))
           else
             (let nonce1 = (if nonce = mx then mn else nonce)
              in if nonce1 = seed - 1 then
                   (let (stop2, m3) = poll_stop env m1
                    in if stop2 then (Some OutageAborted, m3, k1) else (Some Outage, m3, k1))
                 else StartMiningForKey_loop fuel env target seed mn mx (nonce1 + 1) (m1, k1)))"

definition StartMiningForKey ::
  "nat \<Rightarrow> miner_env \<Rightarrow> u64 \<Rightarrow> u64 \<Rightarrow> u64 \<Rightarrow> Miner \<times> key_mining
     \<Rightarrow> key_exit option \<times> Miner \<times> key_mining" where
  "StartMiningForKey fuel env seed mn mx s =
     StartMiningForKey_loop fuel env (GetMiningTarget env 30000000) seed mn mx seed s"

text \<open>
  \<open>commitTaskToKeyMining\<close> starts one goroutine per thread and waits for the wait
  group inside the loop, so thread \<open>i\<close> has returned before thread \<open>i + 1\<close> starts.
  \<open>r.Int63n\<close> panics when its argument is not positive.
\<close>

fun keyMiningThreads ::
  "nat \<Rightarrow> miner_env \<Rightarrow> int \<Rightarrow> u64 \<Rightarrow> nat list \<Rightarrow> Miner \<times> key_mining
     \<Rightarrow> (Miner \<times> key_mining) outcome" where
  "keyMiningThreads fuel env thr step [] s = Ok s"
| "keyMiningThreads fuel env thr step (i # rest) (m, k) =
     (if thr \<noteq> 1 \<and> sint step \<le> 0 then Panic ''invalid argument to Int63n''
      else
        let seed = (if thr = 1 then word_of_nat (rand_draw env (rand_pos m))
                    else word_of_nat (rand_draw env (rand_pos m) mod nat (sint step)));
            m1 = m\<lparr>rand_pos := Suc (rand_pos m)\<rparr>;
            tSeed = seed + word_of_nat i * step;
            mn = word_of_nat i * step;
            mx = (if int i \<noteq> thr - 1 then mn + step - 1 else - 1)
        in case StartMiningForKey fuel env tSeed mn mx (m1, k) of
             (None, s') \<Rightarrow> OutOfFuel
           | (Some e, s') \<Rightarrow> keyMiningThreads fuel env thr step rest s')"

definition commitTaskToKeyMining ::
  "nat \<Rightarrow> miner_env \<Rightarrow> MiningDataPack \<Rightarrow> Miner \<Rightarrow> Miner outcome" where
  "commitTaskToKeyMining fuel env dp m =
     (if mining m \<noteq> 1 then Ok m
      else
        let thr = threads m;
            step = (if thr \<noteq> 0 then (- 1) div (word_of_int thr :: u64) else 0)
        in case keyMiningThreads fuel env thr step [0..<nat thr]
                  (m, \<lparr>dataPack = dp, isNonceFound = 0, hashed = []\<rparr>) of
             Ok (m', k') \<Rightarrow> Ok m'
           | Panic msg \<Rightarrow> Panic msg
           | OutOfFuel \<Rightarrow> OutOfFuel)"

text \<open>
  The body of the loop of \<open>getMiningKey\<close> for chain \<open>i\<close>: either the arrays are
  filled at \<open>i\<close>, or the function returns (with an error, or with a random key when
  the chain is too short).
\<close>

datatype key_step = Filled "u64 list" "Hash list" | ReturnsErr error | ReturnsRandomKey

definition getMiningKey_chain ::
  "miner_env \<Rightarrow> nat \<Rightarrow> u64 list \<Rightarrow> Hash list \<Rightarrow> Miner \<Rightarrow> (key_step \<times> Miner) outcome" where
  "getMiningKey_chain env i heights txHashes m =
     (let blockHeight = chain_height env i
      in if blockHeight > StartHeightOfGetMiningKeyFromChain then
           (case Intn env (int longDist - int shortDist) m of
              Panic msg \<Rightarrow> Panic msg
            | OutOfFuel \<Rightarrow> OutOfFuel
            | Ok (r, m1) \<Rightarrow>
                let h = word_of_nat r + blockHeight - word_of_nat longDist;
                    heights1 = heights[i := h]
                in (case chain_GetBlockByHeight env i h of
                      Inl err \<Rightarrow> Ok (ReturnsErr err, m1)
                    | Inr blockPicked \<Rightarrow>
                        let transactions = Transactions blockPicked
                        in (case Intn env (int (length transactions)) m1 of
                              Panic msg \<Rightarrow> Panic msg
                            | OutOfFuel \<Rightarrow> OutOfFuel
                            | Ok (transactionIndex, m2) \<Rightarrow>
                                Ok (Filled heights1
                                      (txHashes[i := tx_Hash (transactions ! transactionIndex)]),
                                    m2))))
         else
           (case Intn env 100000 m of
              Panic msg \<Rightarrow> Panic msg
            | OutOfFuel \<Rightarrow> OutOfFuel
            | Ok (x, m1) \<Rightarrow>
                Ok (ReturnsRandomKey, m1\<lparr>miningKeyHash := HashBytes env (int2bytes (int x))\<rparr>)))"

fun getMiningKey_chains ::
  "miner_env \<Rightarrow> nat list \<Rightarrow> u64 list \<Rightarrow> Hash list \<Rightarrow> Miner \<Rightarrow> (key_step \<times> Miner) outcome" where
  "getMiningKey_chains env [] heights txHashes m = Ok (Filled heights txHashes, m)"
| "getMiningKey_chains env (i # rest) heights txHashes m =
     (case getMiningKey_chain env i heights txHashes m of
        Ok (Filled heights1 txHashes1, m1) \<Rightarrow> getMiningKey_chains env rest heights1 txHashes1 m1
      | other \<Rightarrow> other)"

definition getMiningKey :: "nat \<Rightarrow> miner_env \<Rightarrow> Miner \<Rightarrow> (error option \<times> Miner) outcome" where
  "getMiningKey fuel env m =
     (case getMiningKey_chains env [0..<numOfChains]
             (replicate numOfChains 0) (replicate numOfChains 0) m of
        Panic msg \<Rightarrow> Panic msg
      | OutOfFuel \<Rightarrow> OutOfFuel
      | Ok (ReturnsErr err, m1) \<Rightarrow> Ok (Some err, m1)
      | Ok (ReturnsRandomKey, m1) \<Rightarrow> Ok (None, m1)
      | Ok (Filled heights txHashes, m1) \<Rightarrow>
          (case commitTaskToKeyMining fuel env
                  \<lparr>Heights = heights, TxHashes = txHashes, dp_Nonce = 0\<rparr> m1 of
             Panic msg \<Rightarrow> Panic msg
           | OutOfFuel \<Rightarrow> OutOfFuel
           | Ok m2 \<Rightarrow> Ok (None, m2)))"

definition getChainNumByMiningKey :: "int \<Rightarrow> u64" where
  "getChainNumByMiningKey miningKeyHashInt = word_of_int (miningKeyHashInt mod int numOfChains)"

definition NewMiningLoop :: "nat \<Rightarrow> miner_env \<Rightarrow> Miner \<Rightarrow> (error option \<times> Miner) outcome" where
  "NewMiningLoop fuel env m =
     (case getMiningKey fuel env m of
        Panic msg \<Rightarrow> Panic msg
      | OutOfFuel \<Rightarrow> OutOfFuel
      | Ok (Some err, m1) \<Rightarrow> Ok (Some err, m1)
      | Ok (None, m1) \<Rightarrow>
          Ok (prepareNewBlock env (getChainNumByMiningKey (uint (miningKeyHash m1))) m1, m1))"

subsection \<open>Starting and stopping\<close>

definition IsMining :: "Miner \<Rightarrow> bool" where
  "IsMining m = (mining m = 1)"

text \<open>Closing a closed channel panics.\<close>

definition close_stopChan :: "Miner \<Rightarrow> Miner outcome" where
  "close_stopChan m =
     (case stopChan m of
        None \<Rightarrow> Ok m
      | Some c \<Rightarrow>
          if c \<in> set (closed_chans m) then Panic ''close of closed channel''
          else Ok (m\<lparr>closed_chans := c # closed_chans m, stopChan := None,
                     effects := effects m @ [CloseStopChan c]\<rparr>))"

definition stopMining :: "Miner \<Rightarrow> Miner outcome" where
  "stopMining m =
     (if mining m \<noteq> 1 then Ok m
      else close_stopChan (m\<lparr>mining := 0\<rparr>))"

definition Start :: "nat \<Rightarrow> miner_env \<Rightarrow> Miner \<Rightarrow> (error option \<times> Miner) outcome" where
  "Start fuel env m =
     (if mining m = 1 then Ok (Some ErrMinerIsRunning, m)
      else if canStart m = 0 then Ok (Some ErrNodeIsSyncing, m)
      else if mining m \<noteq> 0 then Ok (None, m)
      else
        let m1 = m\<lparr>mining := 1\<rparr>;
            m2 = m1\<lparr>stopChan := Some (next_chan m1), next_chan := Suc (next_chan m1)\<rparr>
        in case NewMiningLoop fuel env m2 of
             Panic msg \<Rightarrow> Panic msg
           | OutOfFuel \<Rightarrow> OutOfFuel
           | Ok (Some err, m3) \<Rightarrow> Ok (Some err, m3\<lparr>mining := 0\<rparr>)
           | Ok (None, m3) \<Rightarrow>
               Ok (None, m3\<lparr>stopped := 0, effects := effects m3 @ [GoWaitBlock]\<rparr>))"

definition Miner_Stop :: "Miner \<Rightarrow> Miner outcome" where
  "Miner_Stop m = stopMining (m\<lparr>stopped := 1\<rparr>)"

datatype downloader_event =
    DownloaderStartEvent
  | DownloaderDoneEvent
  | DownloaderFailedEvent
  | OtherDownloaderEvent int

definition downloaderEventCallback ::
  "nat \<Rightarrow> miner_env \<Rightarrow> downloader_event \<Rightarrow> Miner \<Rightarrow> Miner outcome" where
  "downloaderEventCallback fuel env e m =
     (if isFirstDownloader m = 0 then Ok m
      else case e of
        DownloaderStartEvent \<Rightarrow>
          (let m1 = m\<lparr>canStart := 0\<rparr>
           in if IsMining m1 then stopMining m1 else Ok m1)
      | OtherDownloaderEvent n \<Rightarrow> Ok m
      | done_or_failed \<Rightarrow>
          (let m1 = m\<lparr>canStart := 1\<rparr>;
               m2 = m1\<lparr>isFirstDownloader := 0\<rparr>
           in if stopped m2 = 0 then
                (case Start fuel env m2 of
                   Panic msg \<Rightarrow> Panic msg
                 | OutOfFuel \<Rightarrow> OutOfFuel
                 | Ok (err, m3) \<Rightarrow> Ok m3)
              else Ok m2))"

definition newTxCallback :: "nat \<Rightarrow> miner_env \<Rightarrow> Miner \<Rightarrow> Miner outcome" where
  "newTxCallback fuel env m =
     (if stopped m = 0 \<and> canStart m = 1 \<and> mining m = 0 then
        (case NewMiningLoop fuel env (m\<lparr>mining := 1\<rparr>) of
           Panic msg \<Rightarrow> Panic msg
         | OutOfFuel \<Rightarrow> OutOfFuel
         | Ok (Some err, m1) \<Rightarrow> Ok (m1\<lparr>mining := 0\<rparr>)
         | Ok (None, m1) \<Rightarrow> Ok m1)
      else Ok m)"

text \<open>
  What can happen to a miner, and the miner states reached from \<open>NewMiner\<close> by a
  sequence of such happenings.
\<close>

datatype miner_action =
    Downloader downloader_event
  | CallStart
  | CallStop
  | TxInserted

definition miner_step :: "nat \<Rightarrow> miner_env \<Rightarrow> miner_action \<Rightarrow> Miner \<Rightarrow> Miner outcome" where
  "miner_step fuel env a m =
     (case a of
        Downloader e \<Rightarrow> downloaderEventCallback fuel env e m
      | CallStart \<Rightarrow>
          (case Start fuel env m of
             Panic msg \<Rightarrow> Panic msg
           | OutOfFuel \<Rightarrow> OutOfFuel
           | Ok (err, m1) \<Rightarrow> Ok m1)
      | CallStop \<Rightarrow> Miner_Stop m
      | TxInserted \<Rightarrow> newTxCallback fuel env m)"

fun miner_run :: "nat \<Rightarrow> miner_env \<Rightarrow> miner_action list \<Rightarrow> Miner \<Rightarrow> Miner outcome" where
  "miner_run fuel env [] m = Ok m"
| "miner_run fuel env (a # as) m =
     (case miner_step fuel env a m of
        Ok m1 \<Rightarrow> miner_run fuel env as m1
      | other \<Rightarrow> other)"

text \<open>
  An example environment: three chains, all with head at the given height, every block
  holding two transactions; no nonce wins the key mining; nobody closes the stop channel;
  \<open>prepareNewBlock\<close> succeeds.
\<close>

definition example_block :: "u64 \<Rightarrow> Block" where
  "example_block h =
     \<lparr>HeaderHash = ucast h,
      Header = \<lparr>PreviousBlockHash = 0, Creator = [], TxHash = 0, Difficulty = 1, Height = h,
                CreateTimestamp = 0, Nonce = 0, ExtraData = []\<rparr>,
      Transactions = [\<lparr>tx_Hash = ucast h * 2, tx_From = []\<rparr>, \<lparr>tx_Hash = ucast h * 2 + 1, tx_From = []\<rparr>],
      ChainNum = 0\<rparr>"

definition example_miner_env :: "u64 \<Rightarrow> (nat \<Rightarrow> nat) \<Rightarrow> miner_env" where
  "example_miner_env head r =
     \<lparr>chain_height = (\<lambda>i. head),
      chain_GetBlockByHeight = (\<lambda>i h. if h \<le> head then Inr (example_block h) else Inl ErrNotFound),
      rand_draw = r,
      MustHash = (\<lambda>dp. - 1),
      HashBytes = (\<lambda>bs. word_of_nat (length bs)),
      GetMiningTarget = (\<lambda>d. 2 ^ 256 div d),
      stop_closed = (\<lambda>k. False),
      prepareNewBlock = (\<lambda>chainNum m. None)\<rparr>"

section \<open>The peer protocol (package seele, SeeleProtocol)\<close>

definition statusDataMsgCode :: u16 where "statusDataMsgCode = 6"
definition protocolMsgCodeLength :: u16 where "protocolMsgCodeLength = 14"









































subsection \<open>The synchroniser\<close>

text \<open>
  A peer as \<open>synchronise\<close> sees it: its id and what \<open>HeadByChain\<close> answers.
\<close>

record sync_peer =
  peerStrID :: string
  HeadByChain :: "u64 \<Rightarrow> Hash \<times> int"

record bestPeerForEachChain =
  bestPeer :: sync_peer
  chainNum :: u64













section \<open>The service (package seele, SeeleService)\<close>

definition chainHeaderChangeBuffSize :: nat where
  "chainHeaderChangeBuffSize = 100"

datatype chan_state = ChanOpen | ChanClosed

text \<open>
  \<open>SeeleProtocol\<close> as \<open>Stop\<close> sees it: the two channels made by
  \<open>NewSeeleProtocol\<close> and the two listeners it registered.
\<close>

record SeeleProtocol =
  quitCh :: chan_state
  syncCh :: chan_state
  blockMined_listener :: bool
  transactionInserted_listener :: bool

datatype pool_call =
    TxPool_HandleChainHeaderChanged nat Hash Hash
  | DebtPool_HandleChainHeaderChanged nat Hash Hash

text \<open>
  \<open>SeeleService\<close>: arrays of length \<open>NumOfChains\<close> are functions on the indices
  (every access checks the index); a channel is the list of the values it buffers; a
  database is the number of times \<open>Close\<close> was called on it; \<open>pool_calls\<close> lists the
  calls made on the pools.
\<close>

record SeeleService =
  seeleProtocol :: SeeleProtocol
  lastHeaders :: "nat \<Rightarrow> Hash"
  chainHeaderChangeChannels :: "nat \<Rightarrow> Hash list"
  chainDBs_closed :: "nat \<Rightarrow> nat"
  accountStateDB_closed :: nat
  pool_calls :: "pool_call list"

record ChainHeaderChangedMsg =
  chm_HeaderHash :: Hash
  chm_ChainNum :: u64

datatype send_outcome =
    Ignored
  | Enqueued SeeleService
  | SenderBlocks
  | SendPanics string

text \<open>\<open>chainHeaderChanged\<close>: a send on a full channel blocks the sender.\<close>

definition chainHeaderChanged :: "ChainHeaderChangedMsg \<Rightarrow> SeeleService \<Rightarrow> send_outcome" where
  "chainHeaderChanged e s =
     (let newHeader = chm_HeaderHash e
      in if IsEmpty newHeader then Ignored
         else
           let c = unat (chm_ChainNum e)
           in if c \<ge> NumOfChains then SendPanics ''index out of range''
              else if length (chainHeaderChangeChannels s c) \<ge> chainHeaderChangeBuffSize
                then SenderBlocks
              else Enqueued (s\<lparr>chainHeaderChangeChannels :=
                                 (chainHeaderChangeChannels s)(c := chainHeaderChangeChannels s c @ [newHeader])\<rparr>))"

datatype monitor_end = MonitorReturned | MonitorWaiting

text \<open>
  \<open>MonitorChainHeaderChange\<close> on the values it receives from the channel of its
  chain, in order; when they are used up it waits in the \<open>select\<close>.
\<close>

fun MonitorChainHeaderChange ::
  "nat \<Rightarrow> Hash list \<Rightarrow> SeeleService \<Rightarrow> (monitor_end \<times> SeeleService) outcome" where
  "MonitorChainHeaderChange c [] s =
     (if c \<ge> NumOfChains then Panic ''index out of range'' else Ok (MonitorWaiting, s))"
| "MonitorChainHeaderChange c (newHeader # rest) s =
     (if c \<ge> NumOfChains then Panic ''index out of range''
      else if IsEmpty (lastHeaders s c) then
        Ok (MonitorReturned, s\<lparr>lastHeaders := (lastHeaders s)(c := newHeader)\<rparr>)
      else
        MonitorChainHeaderChange c rest
          (s\<lparr>pool_calls := pool_calls s @
                [TxPool_HandleChainHeaderChanged c newHeader (lastHeaders s c),
                 DebtPool_HandleChainHeaderChanged c newHeader (lastHeaders s c)],
             lastHeaders := (lastHeaders s)(c := newHeader)\<rparr>))"

text \<open>
  The calls the pools of chain \<open>c\<close> get when every received head is handed over with
  the head recorded before it.
\<close>

fun handed_over :: "nat \<Rightarrow> Hash \<Rightarrow> Hash list \<Rightarrow> pool_call list" where
  "handed_over c lastHeader [] = []"
| "handed_over c lastHeader (newHeader # rest) =
     TxPool_HandleChainHeaderChanged c newHeader lastHeader
     # DebtPool_HandleChainHeaderChanged c newHeader lastHeader
     # handed_over c newHeader rest"

subsection \<open>Stopping the service\<close>

datatype stop_outcome = StopReturns "error option" | StopPanics string

text \<open>
  \<open>SeeleProtocol.Stop\<close>. Closing a closed channel panics; the state at the time of
  the panic is kept. \<open>RemoveListener\<close> of a listener that is not registered does
  nothing.
\<close>

definition SeeleProtocol_Stop :: "SeeleProtocol \<Rightarrow> stop_outcome \<times> SeeleProtocol" where
  "SeeleProtocol_Stop sp =
     (let sp1 = sp\<lparr>blockMined_listener := False\<rparr>;
          sp2 = sp1\<lparr>transactionInserted_listener := False\<rparr>
      in if quitCh sp2 = ChanClosed then (StopPanics ''close of closed channel'', sp2)
         else
           let sp3 = sp2\<lparr>quitCh := ChanClosed\<rparr>
           in if syncCh sp3 = ChanClosed then (StopPanics ''close of closed channel'', sp3)
              else (StopReturns None, sp3\<lparr>syncCh := ChanClosed\<rparr>))"

fun close_chainDBs :: "nat list \<Rightarrow> (nat \<Rightarrow> nat) \<Rightarrow> (nat \<Rightarrow> nat)" where
  "close_chainDBs [] dbs = dbs"
| "close_chainDBs (i # rest) dbs = close_chainDBs rest (dbs(i := Suc (dbs i)))"

definition SeeleService_Stop :: "SeeleService \<Rightarrow> stop_outcome \<times> SeeleService" where
  "SeeleService_Stop s =
     (case SeeleProtocol_Stop (seeleProtocol s) of
        (StopPanics m, sp) \<Rightarrow> (StopPanics m, s\<lparr>seeleProtocol := sp\<rparr>)
      | (StopReturns r, sp) \<Rightarrow>
          (let s1 = s\<lparr>seeleProtocol := sp\<rparr>;
               s2 = s1\<lparr>chainDBs_closed := close_chainDBs [0..<NumOfChains] (chainDBs_closed s1)\<rparr>;
               s3 = s2\<lparr>accountStateDB_closed := Suc (accountStateDB_closed s2)\<rparr>
           in (StopReturns None, s3)))"

subsection \<open>Setting up the pools and the monitors\<close>

datatype init_effect =
    NewDebtPool nat
  | NewTransactionPool nat
  | AddAsyncListener_chainHeaderChanged
  | Go_MonitorChainHeaderChange nat

text \<open>
  \<open>initPool\<close>. \<open>GetHeadBlockHash\<close> of the store of chain \<open>i\<close> (the stores are
  not among the sources) answers a hash and an error; the hash is assigned to
  \<open>lastHeaders[i]\<close> before the error is looked at. The channel of the chain is made
  empty, and the monitor of the chain is started after its head was recorded.
\<close>

fun initPool_loop ::
  "(nat \<Rightarrow> Hash \<times> error option) \<Rightarrow> nat list \<Rightarrow> SeeleService \<times> init_effect list
     \<Rightarrow> error option \<times> SeeleService \<times> init_effect list" where
  "initPool_loop GetHeadBlockHash [] (s, effs) = (None, s, effs)"
| "initPool_loop GetHeadBlockHash (i # rest) (s, effs) =
     (let (h, err) = GetHeadBlockHash i;
          s1 = s\<lparr>lastHeaders := (lastHeaders s)(i := h)\<rparr>
      in case err of
           Some e \<Rightarrow> (Some (ErrFailedToGetChainHeader e), s1, effs)
         | None \<Rightarrow>
             initPool_loop GetHeadBlockHash rest
               (s1\<lparr>chainHeaderChangeChannels := (chainHeaderChangeChannels s1)(i := [])\<rparr>,
                effs @ [NewDebtPool i, NewTransactionPool i, AddAsyncListener_chainHeaderChanged,
                        Go_MonitorChainHeaderChange i]))"

definition initPool ::
  "(nat \<Rightarrow> Hash \<times> error option) \<Rightarrow> SeeleService
     \<Rightarrow> error option \<times> SeeleService \<times> init_effect list" where
  "initPool GetHeadBlockHash s = initPool_loop GetHeadBlockHash [0..<NumOfChains] (s, [])"

text \<open>A service as \<open>NewSeeleService\<close> leaves it, with the given recorded heads.\<close>

definition new_service :: "(nat \<Rightarrow> Hash) \<Rightarrow> SeeleService" where
  "new_service heads =
     \<lparr>seeleProtocol = \<lparr>quitCh = ChanOpen, syncCh = ChanOpen,
                       blockMined_listener = True, transactionInserted_listener = True\<rparr>,
      lastHeaders = heads,
      chainHeaderChangeChannels = (\<lambda>c. []),
      chainDBs_closed = (\<lambda>c. 0),
      accountStateDB_closed = 0,
      pool_calls = []\<rparr>"

section \<open>Notions used to state the properties\<close>

text \<open>The value an outcome returns, if it returns.\<close>

fun result_of :: "'a outcome \<Rightarrow> 'a option" where
  "result_of (Ok x) = Some x"
| "result_of (Panic msg) = None"
| "result_of OutOfFuel = None"




text \<open>
  The stop channel of a miner is in order when every closed channel was made before
  and the channel in the field \<open>stopChan\<close>, if any, was made and is not closed.
\<close>

definition chans_in_order :: "Miner \<Rightarrow> bool" where
  "chans_in_order m =
     (list_all (\<lambda>c. c < next_chan m) (closed_chans m)
      \<and> (case stopChan m of
           None \<Rightarrow> True
         | Some c \<Rightarrow> c < next_chan m \<and> c \<notin> set (closed_chans m)))"

definition same_chans :: "Miner \<Rightarrow> Miner \<Rightarrow> bool" where
  "same_chans m m' =
     (stopChan m' = stopChan m \<and> closed_chans m' = closed_chans m \<and> next_chan m' = next_chan m)"

text \<open>
  Two miner states of the example (three chains with only the genesis block, so the
  mining key is a random one): the miner after \<open>Start\<close> on a new miner, and the miner
  after the first \<open>DownloaderDone\<close> event on a new miner.
\<close>

definition miner_started :: Miner where
  "miner_started =
     \<lparr>coinbase = [], mining = 1, canStart = 1, stopped = 0, stopChan = Some 0,
      isFirstDownloader = 1, threads = 1, isFirstBlockPrepared = 0, miningKeyHash = 4,
      closed_chans = [], next_chan = 1, rand_pos = 1, polls = 0, effects = [GoWaitBlock]\<rparr>"

definition miner_after_first_round :: Miner where
  "miner_after_first_round =
     \<lparr>coinbase = [], mining = 1, canStart = 1, stopped = 0, stopChan = Some 0,
      isFirstDownloader = 0, threads = 1, isFirstBlockPrepared = 0, miningKeyHash = 4,
      closed_chans = [], next_chan = 1, rand_pos = 1, polls = 0, effects = [GoWaitBlock]\<rparr>"

text \<open>
  The recorded heads before \<open>initPool\<close> (the zero value of the array), the heads an
  example store answers (the hash of the genesis header of the example, as head of
  every chain).
\<close>

definition no_heads :: "nat \<Rightarrow> Hash" where
  "no_heads c = EmptyHash"

definition example_store_heads :: "nat \<Rightarrow> Hash \<times> error option" where
  "example_store_heads i = (273, None)"

definition genesis_heads :: "nat \<Rightarrow> Hash" where
  "genesis_heads c = 273"

definition enqueued_example :: SeeleService where
  "enqueued_example =
     (new_service genesis_heads)\<lparr>chainHeaderChangeChannels := (\<lambda>c. [])(1 := [5])\<rparr>"

definition count_up :: "nat \<Rightarrow> nat" where
  "count_up k = k"

definition empty_pack :: key_mining where
  "empty_pack = \<lparr>dataPack = \<lparr>Heights = [0, 0, 0], TxHashes = [0, 0, 0], dp_Nonce = 0\<rparr>,
                 isNonceFound = 0, hashed = []\<rparr>"

section \<open>Properties of the genesis block\<close>

text \<open>
  C10. For every \<open>GenesisInfo\<close>, the header built by \<open>GetGenesis\<close> has height 0,
  and \<open>getGenesisExtraData\<close> applied to a block carrying that header succeeds with the
  configured shard number, for every serializer whose \<open>Deserialize\<close> reads back what
  \<open>SerializePanic\<close> wrote for the extra data of this genesis.
\<close>

theorem genesis_extra_data_roundtrip:
  assumes "Deserialize ext (SerializePanic ext \<lparr>extra_ShardNumber = ShardNumber info\<rparr>)
             = Inr \<lparr>extra_ShardNumber = ShardNumber info\<rparr>"
    and "Header blk = header (GetGenesis ext info)"
  shows "Height (header (GetGenesis ext info)) = 0
       \<and> (\<exists>d. getGenesisExtraData ext blk = Inr d \<and> extra_ShardNumber d = ShardNumber info)"
  using assms
  by (simp add: GetGenesis_def getGenesisExtraData_def genesisBlockHeight_def Let_def)

theorem genesis_extra_data_roundtrip_witness:
  "Height (header (GetGenesis example_ext (example_info 1))) = 0
   \<and> (\<exists>d. getGenesisExtraData example_ext
             \<lparr>HeaderHash = 0, Header = header (GetGenesis example_ext (example_info 1)),
              Transactions = [], ChainNum = 0\<rparr> = Inr d
          \<and> extra_ShardNumber d = ShardNumber (example_info 1))"
  using genesis_extra_data_roundtrip [of example_ext "example_info 1"
      "\<lparr>HeaderHash = 0, Header = header (GetGenesis example_ext (example_info 1)),
        Transactions = [], ChainNum = 0\<rparr>"]
  by (simp add: example_ext_def example_info_def)

text \<open>
  C1. \<open>InitializeAndValidate\<close> validates and does not destroy. (1) When the store
  has a block at height 0 whose extra data decode to a shard number other than the
  configured one, the result is an error and nothing is written. (2) When the store
  holds the very header of the configured genesis (under its hash, at height 0), the
  result is nil and nothing is written. (3) When the store answers \<open>ErrNotFound\<close>
  for height 0, the one write made is \<open>PutBlockHeader\<close> of the configured header
  under its hash, with its difficulty as total difficulty and as head, and the result
  is that write's. (4) Whatever else the store answers, nothing is written unless
  height 0 was reported as not found.
\<close>

theorem InitializeAndValidate_validates_without_writing:
  "(GetBlockHash st genesisBlockHeight = Inr h \<and> GetBlock st h = Inr b
      \<and> Deserialize ext (ExtraData (Header b)) = Inr d
      \<and> extra_ShardNumber d \<noteq> ShardNumber (Info g)
     \<longrightarrow> (\<exists>e. InitializeAndValidate ext g st = (Some e, [])))
   \<and> (Deserialize ext (SerializePanic ext \<lparr>extra_ShardNumber = ShardNumber info\<rparr>)
          = Inr \<lparr>extra_ShardNumber = ShardNumber info\<rparr>
      \<and> GetBlockHash st genesisBlockHeight = Inr (Hash_of_header ext (header (GetGenesis ext info)))
      \<and> GetBlock st (Hash_of_header ext (header (GetGenesis ext info))) = Inr b'
      \<and> Header b' = header (GetGenesis ext info)
     \<longrightarrow> InitializeAndValidate ext (GetGenesis ext info) st = (None, []))
   \<and> (GetBlockHash st genesisBlockHeight = Inl ErrNotFound
     \<longrightarrow> InitializeAndValidate ext g st =
           (PutBlockHeader st (Hash_of_header ext (header g)) (header g) (Difficulty (header g)) True,
            [PutBlockHeaderCall (Hash_of_header ext (header g)) (header g) (Difficulty (header g)) True]))
   \<and> (GetBlockHash st genesisBlockHeight \<noteq> Inl ErrNotFound
     \<longrightarrow> snd (InitializeAndValidate ext g st) = [])"
proof (intro conjI impI)
  assume "GetBlockHash st genesisBlockHeight = Inr h \<and> GetBlock st h = Inr b
      \<and> Deserialize ext (ExtraData (Header b)) = Inr d
      \<and> extra_ShardNumber d \<noteq> ShardNumber (Info g)"
  then show "\<exists>e. InitializeAndValidate ext g st = (Some e, [])"
    by (simp add: InitializeAndValidate_def getGenesisExtraData_def)
next
  assume "Deserialize ext (SerializePanic ext \<lparr>extra_ShardNumber = ShardNumber info\<rparr>)
          = Inr \<lparr>extra_ShardNumber = ShardNumber info\<rparr>
      \<and> GetBlockHash st genesisBlockHeight = Inr (Hash_of_header ext (header (GetGenesis ext info)))
      \<and> GetBlock st (Hash_of_header ext (header (GetGenesis ext info))) = Inr b'
      \<and> Header b' = header (GetGenesis ext info)"
  then show "InitializeAndValidate ext (GetGenesis ext info) st = (None, [])"
    by (simp add: InitializeAndValidate_def getGenesisExtraData_def)
       (simp add: GetGenesis_def Let_def genesisBlockHeight_def)
next
  assume "GetBlockHash st genesisBlockHeight = Inl ErrNotFound"
  then show "InitializeAndValidate ext g st =
           (PutBlockHeader st (Hash_of_header ext (header g)) (header g) (Difficulty (header g)) True,
            [PutBlockHeaderCall (Hash_of_header ext (header g)) (header g) (Difficulty (header g)) True])"
    by (simp add: InitializeAndValidate_def store_genesis_def Let_def)
next
  assume "GetBlockHash st genesisBlockHeight \<noteq> Inl ErrNotFound"
  then show "snd (InitializeAndValidate ext g st) = []"
    by (auto simp: InitializeAndValidate_def split: sum.splits)
qed

theorem InitializeAndValidate_validates_without_writing_witness:
  "(\<exists>e. InitializeAndValidate example_ext (GetGenesis example_ext (example_info 1))
           (store_holding example_ext (GetGenesis example_ext (example_info 2))) = (Some e, []))
   \<and> InitializeAndValidate example_ext (GetGenesis example_ext (example_info 1))
           (store_holding example_ext (GetGenesis example_ext (example_info 1))) = (None, [])
   \<and> InitializeAndValidate example_ext (GetGenesis example_ext (example_info 1)) empty_store =
       (None, [PutBlockHeaderCall 273 (header (GetGenesis example_ext (example_info 1))) 1 True])
   \<and> snd (InitializeAndValidate example_ext (GetGenesis example_ext (example_info 1))
           (store_holding example_ext (GetGenesis example_ext (example_info 2)))) = []"
  using InitializeAndValidate_validates_without_writing
      [of "store_holding example_ext (GetGenesis example_ext (example_info 2))"
          "Hash_of_header example_ext (header (GetGenesis example_ext (example_info 2)))"
          "\<lparr>HeaderHash = Hash_of_header example_ext (header (GetGenesis example_ext (example_info 2))),
            Header = header (GetGenesis example_ext (example_info 2)), Transactions = [], ChainNum = 0\<rparr>"
          example_ext "\<lparr>extra_ShardNumber = 2\<rparr>"
          "GetGenesis example_ext (example_info 1)"
          "example_info 1"
          "\<lparr>HeaderHash = 0, Header = header (GetGenesis example_ext (example_info 1)),
            Transactions = [], ChainNum = 0\<rparr>"]
    InitializeAndValidate_validates_without_writing
      [of "store_holding example_ext (GetGenesis example_ext (example_info 1))"
          0 undefined example_ext undefined
          "GetGenesis example_ext (example_info 1)"
          "example_info 1"
          "\<lparr>HeaderHash = Hash_of_header example_ext (header (GetGenesis example_ext (example_info 1))),
            Header = header (GetGenesis example_ext (example_info 1)), Transactions = [], ChainNum = 0\<rparr>"]
    InitializeAndValidate_validates_without_writing
      [of empty_store 0 undefined example_ext undefined
          "GetGenesis example_ext (example_info 1)" "example_info 1" undefined]
  by (simp add: example_ext_def example_info_def store_holding_def empty_store_def
        GetGenesis_def genesisBlockHeight_def Let_def)

section \<open>Properties of the miner's start\<close>

text \<open>
  C6. Starting the miner during a sync fails cleanly: in every miner state whose flag
  \<open>mining\<close> is 0 and whose flag \<open>canStart\<close> is 0, \<open>Start\<close> returns
  \<open>ErrNodeIsSyncing\<close> and the miner is exactly as before (the flag \<open>mining\<close>
  still 0), whatever the chains, the random source and the fuel.
\<close>

theorem Start_refused_while_syncing:
  "mining m = 0 \<Longrightarrow> canStart m = 0 \<Longrightarrow> Start fuel env m = Ok (Some ErrNodeIsSyncing, m)"
  by (simp add: Start_def)

theorem Start_refused_while_syncing_witness:
  "mining ((NewMiner [])\<lparr>canStart := 0\<rparr>) = 0 \<and> canStart ((NewMiner [])\<lparr>canStart := 0\<rparr>) = 0
   \<and> Start 5 (example_miner_env 10 count_up) ((NewMiner [])\<lparr>canStart := 0\<rparr>)
       = Ok (Some ErrNodeIsSyncing, (NewMiner [])\<lparr>canStart := 0\<rparr>)"
  using Start_refused_while_syncing [of "(NewMiner [])\<lparr>canStart := 0\<rparr>" 5 "example_miner_env 10 count_up"]
  by (simp add: NewMiner_def)

section \<open>Properties of the message handler\<close>
















section \<open>Properties of the synchroniser\<close>







section \<open>Properties of the service\<close>

lemma monitor_hands_over:
  "c < NumOfChains \<Longrightarrow> \<not> IsEmpty (lastHeaders s c) \<Longrightarrow> \<forall>h\<in>set evs. \<not> IsEmpty h \<Longrightarrow>
   MonitorChainHeaderChange c evs s =
     Ok (MonitorWaiting,
         s\<lparr>pool_calls := pool_calls s @ handed_over c (lastHeaders s c) evs,
           lastHeaders := (lastHeaders s)(c := last (lastHeaders s c # evs))\<rparr>)"
proof (induction evs arbitrary: s)
  case Nil
  then show ?case by simp
next
  case (Cons h hs)
  define s1 where "s1 = s\<lparr>pool_calls := pool_calls s @
                [TxPool_HandleChainHeaderChanged c h (lastHeaders s c),
                 DebtPool_HandleChainHeaderChanged c h (lastHeaders s c)],
             lastHeaders := (lastHeaders s)(c := h)\<rparr>"
  have step: "MonitorChainHeaderChange c (h # hs) s = MonitorChainHeaderChange c hs s1"
    using Cons.prems by (simp add: s1_def)
  have a: "\<not> IsEmpty (lastHeaders s1 c)" using Cons.prems by (simp add: s1_def)
  have b: "\<forall>h\<in>set hs. \<not> IsEmpty h" using Cons.prems by simp
  have ih: "MonitorChainHeaderChange c hs s1 =
     Ok (MonitorWaiting,
         s1\<lparr>pool_calls := pool_calls s1 @ handed_over c (lastHeaders s1 c) hs,
           lastHeaders := (lastHeaders s1)(c := last (lastHeaders s1 c # hs))\<rparr>)"
    by (rule Cons.IH [OF Cons.prems(1) a b])
  show ?case unfolding step ih by (cases hs) (simp_all add: s1_def fun_upd_def cong: if_cong)
qed

lemma enqueued_nonempty:
  "chainHeaderChanged e s = Enqueued s' \<Longrightarrow>
   \<not> IsEmpty (chm_HeaderHash e) \<and> unat (chm_ChainNum e) < NumOfChains
   \<and> chainHeaderChangeChannels s' (unat (chm_ChainNum e))
       = chainHeaderChangeChannels s (unat (chm_ChainNum e)) @ [chm_HeaderHash e]"
  by (auto simp: chainHeaderChanged_def Let_def split: if_splits)

lemma initPool_loop_records:
  "initPool_loop heads idxs (s, effs) = (None, s', effs') \<Longrightarrow>
   (c \<in> set idxs \<longrightarrow> lastHeaders s' c = fst (heads c) \<and> chainHeaderChangeChannels s' c = []
        \<and> Go_MonitorChainHeaderChange c \<in> set effs')
   \<and> (c \<notin> set idxs \<longrightarrow> lastHeaders s' c = lastHeaders s c
        \<and> chainHeaderChangeChannels s' c = chainHeaderChangeChannels s c)
   \<and> set effs \<subseteq> set effs' \<and> pool_calls s' = pool_calls s"
proof (induction idxs arbitrary: s effs)
  case Nil
  then show ?case by simp
next
  case (Cons i rest)
  obtain h err where g: "heads i = (h, err)" by (cases "heads i")
  from Cons.prems g have none: "err = None" by (cases err) (simp_all add: Let_def)
  define s1 where "s1 = s\<lparr>lastHeaders := (lastHeaders s)(i := h),
                           chainHeaderChangeChannels := (chainHeaderChangeChannels s)(i := [])\<rparr>"
  define effs1 where "effs1 = effs @ [NewDebtPool i, NewTransactionPool i,
                                      AddAsyncListener_chainHeaderChanged, Go_MonitorChainHeaderChange i]"
  have step: "initPool_loop heads rest (s1, effs1) = (None, s', effs')"
    using Cons.prems g none by (simp add: Let_def s1_def effs1_def)
  from Cons.IH [OF step] show ?case using g by (auto simp add: s1_def effs1_def)
qed

lemma initPool_records:
  "initPool heads s0 = (None, s, effs) \<Longrightarrow> c < NumOfChains \<Longrightarrow>
   lastHeaders s c = fst (heads c) \<and> chainHeaderChangeChannels s c = []
   \<and> Go_MonitorChainHeaderChange c \<in> set effs \<and> pool_calls s = pool_calls s0"
  using initPool_loop_records [of heads "[0..<NumOfChains]" s0 "[]" s effs c]
  by (simp add: initPool_def)

text \<open>
  C7. Chain-head events reach the pools in order. For every chain \<open>c\<close> and every
  sequence of heads received on the channel of \<open>c\<close>, the monitor hands each one to
  the transaction pool and to the debt pool of \<open>c\<close>, with the head recorded before it,
  in the order received, records the last one, and goes on waiting for the next: (1) from
  any state in which the recorded head of \<open>c\<close> is not empty; (2) the heads on the
  channel are never empty and are in the order of the calls of \<open>chainHeaderChanged\<close>,
  which puts a head at the end of the channel of its chain, and only a head that is not
  empty; (3) \<open>initPool\<close> records the head of the store of \<open>c\<close> and makes the
  channel of \<open>c\<close> before it starts the monitor of \<open>c\<close>, so that on the service
  it sets up, with a store whose head hash is not empty, the monitor of every chain is
  started and hands over every head it receives, the first one with the head of the
  store.
\<close>

theorem monitor_hands_over_in_order:
  "(c < NumOfChains \<and> \<not> IsEmpty (lastHeaders s c) \<and> (\<forall>h\<in>set evs. \<not> IsEmpty h)
     \<longrightarrow> MonitorChainHeaderChange c evs s =
           Ok (MonitorWaiting,
               s\<lparr>pool_calls := pool_calls s @ handed_over c (lastHeaders s c) evs,
                 lastHeaders := (lastHeaders s)(c := last (lastHeaders s c # evs))\<rparr>))
   \<and> (chainHeaderChanged e s = Enqueued s'
     \<longrightarrow> \<not> IsEmpty (chm_HeaderHash e) \<and> unat (chm_ChainNum e) < NumOfChains
         \<and> chainHeaderChangeChannels s' (unat (chm_ChainNum e))
             = chainHeaderChangeChannels s (unat (chm_ChainNum e)) @ [chm_HeaderHash e])
   \<and> (initPool heads s0 = (None, si, effs) \<and> c < NumOfChains \<and> \<not> IsEmpty (fst (heads c))
       \<and> (\<forall>h\<in>set evs. \<not> IsEmpty h)
     \<longrightarrow> Go_MonitorChainHeaderChange c \<in> set effs
         \<and> lastHeaders si c = fst (heads c)
         \<and> chainHeaderChangeChannels si c = []
         \<and> MonitorChainHeaderChange c evs si =
             Ok (MonitorWaiting,
                 si\<lparr>pool_calls := pool_calls s0 @ handed_over c (fst (heads c)) evs,
                    lastHeaders := (lastHeaders si)(c := last (fst (heads c) # evs))\<rparr>))"
proof -
  have third: "Go_MonitorChainHeaderChange c \<in> set effs
         \<and> lastHeaders si c = fst (heads c)
         \<and> chainHeaderChangeChannels si c = []
         \<and> MonitorChainHeaderChange c evs si =
             Ok (MonitorWaiting,
                 si\<lparr>pool_calls := pool_calls s0 @ handed_over c (fst (heads c)) evs,
                    lastHeaders := (lastHeaders si)(c := last (fst (heads c) # evs))\<rparr>)"
    if a: "initPool heads s0 = (None, si, effs)" and b: "c < NumOfChains"
      and n: "\<not> IsEmpty (fst (heads c))" and d: "\<forall>h\<in>set evs. \<not> IsEmpty h"
  proof -
    from initPool_records [OF a b] have r: "lastHeaders si c = fst (heads c)"
      "chainHeaderChangeChannels si c = []" "Go_MonitorChainHeaderChange c \<in> set effs"
      "pool_calls si = pool_calls s0" by simp_all
    from n r(1) have "\<not> IsEmpty (lastHeaders si c)" by simp
    from monitor_hands_over [OF b this d] r show ?thesis by simp
  qed
  show ?thesis
    using monitor_hands_over [of c s evs] enqueued_nonempty [of e s s'] third
    by blast
qed

theorem monitor_hands_over_in_order_witness:
  "map_option fst (result_of (MonitorChainHeaderChange 0 [1, 2] (new_service genesis_heads)))
     = Some MonitorWaiting
   \<and> map_option (pool_calls \<circ> snd)
       (result_of (MonitorChainHeaderChange 0 [1, 2] (new_service genesis_heads)))
     = Some [TxPool_HandleChainHeaderChanged 0 1 273, DebtPool_HandleChainHeaderChanged 0 1 273,
             TxPool_HandleChainHeaderChanged 0 2 1, DebtPool_HandleChainHeaderChanged 0 2 1]
   \<and> map_option (\<lambda>r. lastHeaders (snd r) 0)
       (result_of (MonitorChainHeaderChange 0 [1, 2] (new_service genesis_heads)))
     = Some 2
   \<and> chainHeaderChanged \<lparr>chm_HeaderHash = 5, chm_ChainNum = 1\<rparr> (new_service genesis_heads)
     = Enqueued (enqueued_example)
   \<and> chainHeaderChangeChannels enqueued_example 1 = [5]
   \<and> fst (initPool example_store_heads (new_service no_heads)) = None
   \<and> Go_MonitorChainHeaderChange 0 \<in> set (snd (snd (initPool example_store_heads (new_service no_heads))))
   \<and> lastHeaders (fst (snd (initPool example_store_heads (new_service no_heads)))) 0 = 273
   \<and> map_option fst (result_of (MonitorChainHeaderChange 0 [1, 2]
         (fst (snd (initPool example_store_heads (new_service no_heads))))))
     = Some MonitorWaiting
   \<and> map_option (pool_calls \<circ> snd) (result_of (MonitorChainHeaderChange 0 [1, 2]
         (fst (snd (initPool example_store_heads (new_service no_heads))))))
     = Some [TxPool_HandleChainHeaderChanged 0 1 273, DebtPool_HandleChainHeaderChanged 0 1 273,
             TxPool_HandleChainHeaderChanged 0 2 1, DebtPool_HandleChainHeaderChanged 0 2 1]"
proof -
  have a: "(0::nat) < NumOfChains" by (simp add: NumOfChains_def)
  have b: "\<not> IsEmpty (lastHeaders (new_service genesis_heads) 0)"
    by (simp add: new_service_def genesis_heads_def IsEmpty_def EmptyHash_def)
  have c: "\<forall>h\<in>set [1, 2 :: Hash]. \<not> IsEmpty h"
    by (simp add: IsEmpty_def EmptyHash_def)
  have d: "lastHeaders (new_service genesis_heads) 0 = 273" "pool_calls (new_service genesis_heads) = []"
    by (simp_all add: new_service_def genesis_heads_def)
  have e: "chainHeaderChanged \<lparr>chm_HeaderHash = 5, chm_ChainNum = 1\<rparr> (new_service genesis_heads)
             = Enqueued (enqueued_example)"
    by (simp add: chainHeaderChanged_def enqueued_example_def new_service_def IsEmpty_def
        EmptyHash_def NumOfChains_def chainHeaderChangeBuffSize_def Let_def)
  have f: "chainHeaderChangeChannels (new_service genesis_heads) 1 = []"
    by (simp add: new_service_def)
  define si where "si = fst (snd (initPool example_store_heads (new_service no_heads)))"
  define effs where "effs = snd (snd (initPool example_store_heads (new_service no_heads)))"
  have g0: "fst (initPool example_store_heads (new_service no_heads)) = None"
    by (simp add: initPool_def NumOfChains_def upt_rec numeral_3_eq_3 numeral_2_eq_2
        example_store_heads_def Let_def)
  then have g: "initPool example_store_heads (new_service no_heads) = (None, si, effs)"
    by (simp add: si_def effs_def prod_eq_iff)
  have h: "\<not> IsEmpty (fst (example_store_heads 0))" "fst (example_store_heads 0) = 273"
    by (simp_all add: example_store_heads_def IsEmpty_def EmptyHash_def)
  have i: "pool_calls (new_service no_heads) = []" by (simp add: new_service_def)
  note T = monitor_hands_over_in_order [where c = 0 and s = "new_service genesis_heads"
        and evs = "[1, 2]" and e = "\<lparr>chm_HeaderHash = 5, chm_ChainNum = 1\<rparr>"
        and s' = enqueued_example and heads = example_store_heads and ?s0.0 = "new_service no_heads"
        and si = si and effs = effs]
  from T a b c have m1: "MonitorChainHeaderChange 0 [1, 2] (new_service genesis_heads) =
           Ok (MonitorWaiting,
               (new_service genesis_heads)\<lparr>pool_calls := pool_calls (new_service genesis_heads)
                   @ handed_over 0 (lastHeaders (new_service genesis_heads) 0) [1, 2],
                 lastHeaders := (lastHeaders (new_service genesis_heads))
                   (0 := last (lastHeaders (new_service genesis_heads) 0 # [1, 2]))\<rparr>)"
    by blast
  from T e have m2: "chainHeaderChangeChannels enqueued_example (unat (chm_ChainNum \<lparr>chm_HeaderHash = 5, chm_ChainNum = 1\<rparr>))
             = chainHeaderChangeChannels (new_service genesis_heads) (unat (chm_ChainNum \<lparr>chm_HeaderHash = 5, chm_ChainNum = 1\<rparr>))
               @ [chm_HeaderHash \<lparr>chm_HeaderHash = 5, chm_ChainNum = 1\<rparr>]"
    by blast
  from T g a h(1) c have m3: "Go_MonitorChainHeaderChange 0 \<in> set effs"
    "lastHeaders si 0 = fst (example_store_heads 0)"
    "MonitorChainHeaderChange 0 [1, 2] si =
             Ok (MonitorWaiting,
                 si\<lparr>pool_calls := pool_calls (new_service no_heads) @ handed_over 0 (fst (example_store_heads 0)) [1, 2],
                    lastHeaders := (lastHeaders si)(0 := last (fst (example_store_heads 0) # [1, 2]))\<rparr>)"
    by blast+
  show ?thesis
    unfolding g fst_conv snd_conv m1 m3(3)
    using m2 m3(1,2) d e f h(2) i g
    by simp
qed


lemma close_chainDBs_3: "close_chainDBs [0..<NumOfChains] dbs = dbs(0 := Suc (dbs 0), 1 := Suc (dbs 1), 2 := Suc (dbs 2))"
  by (simp add: NumOfChains_def upt_rec numeral_3_eq_3 numeral_2_eq_2)

lemma closed_once:
  "i < NumOfChains \<Longrightarrow> close_chainDBs [0..<NumOfChains] dbs i = Suc (dbs i)"
proof -
  assume "i < NumOfChains"
  then have "i = 0 \<or> i = 1 \<or> i = 2" by (auto simp: NumOfChains_def)
  then show ?thesis by (auto simp: close_chainDBs_3)
qed

text \<open>
  C8, as the claim states it, fails: the second call of \<open>SeeleService.Stop\<close> panics,
  closing the closed channel \<open>quitCh\<close>.
\<close>

theorem second_Stop_panics:
  "fst (SeeleService_Stop (snd (SeeleService_Stop (new_service genesis_heads))))
     = StopPanics ''close of closed channel''"
  by (simp add: SeeleService_Stop_def SeeleProtocol_Stop_def new_service_def Let_def)

text \<open>
  C8, amended. On a service whose channels \<open>quitCh\<close> and \<open>syncCh\<close> are open
  (as \<open>NewSeeleProtocol\<close> makes them) the first call of \<open>Stop\<close> returns nil and
  closes every chain database and the account-state database once. \<open>Stop\<close> is not
  idempotent: a second call panics in \<open>SeeleProtocol.Stop\<close>, before any database is
  touched, so that after both calls every database has been closed exactly once.
\<close>

theorem Stop_closes_once_then_panics:
  "quitCh (seeleProtocol s) = ChanOpen \<and> syncCh (seeleProtocol s) = ChanOpen \<and> i < NumOfChains \<longrightarrow>
     fst (SeeleService_Stop s) = StopReturns None
     \<and> chainDBs_closed (snd (SeeleService_Stop s)) i = Suc (chainDBs_closed s i)
     \<and> accountStateDB_closed (snd (SeeleService_Stop s)) = Suc (accountStateDB_closed s)
     \<and> fst (SeeleService_Stop (snd (SeeleService_Stop s))) = StopPanics ''close of closed channel''
     \<and> chainDBs_closed (snd (SeeleService_Stop (snd (SeeleService_Stop s)))) i = Suc (chainDBs_closed s i)
     \<and> accountStateDB_closed (snd (SeeleService_Stop (snd (SeeleService_Stop s)))) = Suc (accountStateDB_closed s)"
  by (simp add: SeeleService_Stop_def SeeleProtocol_Stop_def Let_def closed_once)

theorem Stop_closes_once_then_panics_witness:
  "fst (SeeleService_Stop (new_service genesis_heads)) = StopReturns None
   \<and> chainDBs_closed (snd (SeeleService_Stop (new_service genesis_heads))) 2 = 1
   \<and> accountStateDB_closed (snd (SeeleService_Stop (new_service genesis_heads))) = 1
   \<and> chainDBs_closed (snd (SeeleService_Stop (snd (SeeleService_Stop (new_service genesis_heads))))) 2 = 1
   \<and> accountStateDB_closed (snd (SeeleService_Stop (snd (SeeleService_Stop (new_service genesis_heads))))) = 1"
proof -
  have a: "quitCh (seeleProtocol (new_service genesis_heads)) = ChanOpen"
    "syncCh (seeleProtocol (new_service genesis_heads)) = ChanOpen"
    "chainDBs_closed (new_service genesis_heads) 2 = 0"
    "accountStateDB_closed (new_service genesis_heads) = 0"
    by (simp_all add: new_service_def)
  have b: "(2::nat) < NumOfChains" by (simp add: NumOfChains_def)
  show ?thesis
    using Stop_closes_once_then_panics [where s = "new_service genesis_heads" and i = 2] a b
    by simp
qed

section \<open>Properties of the miner under synchronisation\<close>

lemma same_chans_refl [simp]: "same_chans m m"
  by (simp add: same_chans_def)

lemma same_chans_trans: "same_chans a b \<Longrightarrow> same_chans b c \<Longrightarrow> same_chans a c"
  by (simp add: same_chans_def)

lemma same_chans_upd [simp]:
  "same_chans m (m'\<lparr>polls := p\<rparr>) = same_chans m m'"
  "same_chans m (m'\<lparr>rand_pos := q\<rparr>) = same_chans m m'"
  "same_chans m (m'\<lparr>miningKeyHash := h\<rparr>) = same_chans m m'"
  "same_chans m (m'\<lparr>mining := f\<rparr>) = same_chans m m'"
  "same_chans m (m'\<lparr>stopped := f\<rparr>) = same_chans m m'"
  "same_chans m (m'\<lparr>canStart := f\<rparr>) = same_chans m m'"
  "same_chans m (m'\<lparr>isFirstDownloader := f\<rparr>) = same_chans m m'"
  "same_chans m (m'\<lparr>effects := es\<rparr>) = same_chans m m'"
  "same_chans (m\<lparr>polls := p\<rparr>) m' = same_chans m m'"
  "same_chans (m\<lparr>rand_pos := q\<rparr>) m' = same_chans m m'"
  "same_chans (m\<lparr>miningKeyHash := h\<rparr>) m' = same_chans m m'"
  "same_chans (m\<lparr>mining := f\<rparr>) m' = same_chans m m'"
  by (simp_all add: same_chans_def)

lemma loop_same_chans:
  "StartMiningForKey_loop fuel env target seed mn mx nonce (m, k) = (e, m', k') \<Longrightarrow> same_chans m m'"
proof (induction fuel arbitrary: nonce m k e m' k')
  case 0
  then show ?case by simp
next
  case (Suc fuel)
  show ?case
  proof (cases "StartMiningForKey_loop fuel env target seed mn mx
                  ((if nonce = mx then mn else nonce) + 1)
                  (m\<lparr>polls := Suc (polls m)\<rparr>,
                   k\<lparr>dataPack := (dataPack k)\<lparr>dp_Nonce := nonce\<rparr>, hashed := hashed k @ [nonce]\<rparr>)")
    case (fields e2 m2 k2)
    from Suc.IH [OF fields] have "same_chans m m2" by simp
    then show ?thesis
      using Suc.prems fields
      by (auto simp: Let_def poll_stop_def split: if_splits prod.splits)
  qed
qed

lemma threads_same_chans:
  "keyMiningThreads fuel env thr step is (m, k) = Ok (m', k') \<Longrightarrow> same_chans m m'"
proof (induction "is" arbitrary: m k)
  case Nil
  then show ?case by simp
next
  case (Cons i rest)
  define seed where "seed = (if thr = 1 then (word_of_nat (rand_draw env (rand_pos m)) :: u64)
                    else word_of_nat (rand_draw env (rand_pos m) mod nat (sint step)))"
  define mn where "mn = (word_of_nat i :: u64) * step"
  define mx where "mx = (if int i \<noteq> thr - 1 then mn + step - 1 else - 1)"
  obtain e m1 k1 where r: "StartMiningForKey fuel env (seed + word_of_nat i * step) mn mx
         (m\<lparr>rand_pos := Suc (rand_pos m)\<rparr>, k) = (e, m1, k1)"
    by (cases "StartMiningForKey fuel env (seed + word_of_nat i * step) mn mx
         (m\<lparr>rand_pos := Suc (rand_pos m)\<rparr>, k)")
  then have a: "same_chans m m1"
    using loop_same_chans [of fuel env _ _ mn mx _ "m\<lparr>rand_pos := Suc (rand_pos m)\<rparr>" k e m1 k1]
    by (simp add: StartMiningForKey_def)
  from Cons.prems r obtain x where e: "e = Some x" and rest: "keyMiningThreads fuel env thr step rest (m1, k1) = Ok (m', k')"
    by (auto simp: Let_def seed_def mn_def mx_def split: if_splits option.splits)
  from Cons.IH [OF rest] a show ?case by (rule same_chans_trans [rotated])
qed

lemma commit_same_chans:
  "commitTaskToKeyMining fuel env dp m = Ok m' \<Longrightarrow> same_chans m m'"
  by (auto simp: commitTaskToKeyMining_def Let_def split: if_splits outcome.splits dest: threads_same_chans)

lemma chain_same_chans:
  "getMiningKey_chain env i hs ts m = Ok (r, m') \<Longrightarrow> same_chans m m'"
  by (auto simp: getMiningKey_chain_def Let_def Intn_def split: if_splits sum.splits)

lemma chains_same_chans:
  "getMiningKey_chains env is hs ts m = Ok (r, m') \<Longrightarrow> same_chans m m'"
proof (induction "is" arbitrary: hs ts m)
  case Nil
  then show ?case by simp
next
  case (Cons i rest)
  show ?case
  proof (cases "getMiningKey_chain env i hs ts m")
    case (Ok x)
    obtain st m1 where x: "x = (st, m1)" by (cases x)
    from chain_same_chans Ok x have a: "same_chans m m1" by blast
    show ?thesis
    proof (cases st)
      case (Filled hs1 ts1)
      with Cons.prems Ok x have "getMiningKey_chains env rest hs1 ts1 m1 = Ok (r, m')" by simp
      from Cons.IH [OF this] a show ?thesis by (rule same_chans_trans [rotated])
    next
      case (ReturnsErr err)
      with Cons.prems Ok x a show ?thesis by simp
    next
      case ReturnsRandomKey
      with Cons.prems Ok x a show ?thesis by simp
    qed
  next
    case (Panic msg)
    with Cons.prems show ?thesis by simp
  next
    case OutOfFuel
    with Cons.prems show ?thesis by simp
  qed
qed

lemma getMiningKey_same_chans:
  "getMiningKey fuel env m = Ok (r, m') \<Longrightarrow> same_chans m m'"
  by (auto simp: getMiningKey_def split: outcome.splits prod.splits key_step.splits
      dest!: chains_same_chans commit_same_chans intro: same_chans_trans)

lemma NewMiningLoop_same_chans:
  "NewMiningLoop fuel env m = Ok (r, m') \<Longrightarrow> same_chans m m'"
  by (auto simp: NewMiningLoop_def split: outcome.splits prod.splits option.splits
      dest!: getMiningKey_same_chans)

lemma in_order_cong: "same_chans m m' \<Longrightarrow> chans_in_order m \<Longrightarrow> chans_in_order m'"
  by (simp add: same_chans_def chans_in_order_def split: option.splits)

lemma in_order_upd [simp]:
  "chans_in_order (m\<lparr>mining := f\<rparr>) = chans_in_order m"
  "chans_in_order (m\<lparr>stopped := f\<rparr>) = chans_in_order m"
  "chans_in_order (m\<lparr>canStart := f\<rparr>) = chans_in_order m"
  "chans_in_order (m\<lparr>isFirstDownloader := f\<rparr>) = chans_in_order m"
  "chans_in_order (m\<lparr>effects := es\<rparr>) = chans_in_order m"
  by (simp_all add: chans_in_order_def split: option.splits)

lemma in_order_make:
  "chans_in_order m \<Longrightarrow> chans_in_order (m\<lparr>stopChan := Some (next_chan m), next_chan := Suc (next_chan m)\<rparr>)"
  by (auto simp: chans_in_order_def list_all_iff split: option.splits)

lemma Start_in_order:
  "Start fuel env m = Ok (r, m') \<Longrightarrow> chans_in_order m \<Longrightarrow> chans_in_order m'"
proof -
  assume s: "Start fuel env m = Ok (r, m')" and o: "chans_in_order m"
  define m2 where "m2 = m\<lparr>mining := 1, stopChan := Some (next_chan m), next_chan := Suc (next_chan m)\<rparr>"
  have o2: "chans_in_order m2" using in_order_make [OF o] by (simp add: m2_def chans_in_order_def)
  show ?thesis
  proof (cases "mining m = 1 \<or> canStart m = 0 \<or> mining m \<noteq> 0")
    case True
    with s o show ?thesis by (auto simp: Start_def split: if_splits)
  next
    case False
    with s have "\<exists>e m3. NewMiningLoop fuel env m2 = Ok (e, m3)
        \<and> (m' = m3\<lparr>mining := 0\<rparr> \<or> m' = m3\<lparr>stopped := 0, effects := effects m3 @ [GoWaitBlock]\<rparr>)"
      by (auto simp: Start_def Let_def m2_def split: outcome.splits option.splits prod.splits)
    then obtain e m3 where n: "NewMiningLoop fuel env m2 = Ok (e, m3)"
      and m': "m' = m3\<lparr>mining := 0\<rparr> \<or> m' = m3\<lparr>stopped := 0, effects := effects m3 @ [GoWaitBlock]\<rparr>"
      by blast
    from in_order_cong [OF NewMiningLoop_same_chans [OF n] o2] have "chans_in_order m3" .
    with m' show ?thesis by auto
  qed
qed

lemma stopMining_in_order:
  "chans_in_order m \<Longrightarrow> \<exists>m'. stopMining m = Ok m' \<and> chans_in_order m' \<and> mining m' \<noteq> 1
     \<and> canStart m' = canStart m
     \<and> (mining m = 1 \<longrightarrow> mining m' = 0 \<and> stopChan m' = None
          \<and> (\<forall>c. stopChan m = Some c \<longrightarrow> c \<in> set (closed_chans m')))"
  by (auto simp: stopMining_def close_stopChan_def chans_in_order_def list_all_iff split: option.splits)

lemma newTx_in_order:
  "newTxCallback fuel env m = Ok m' \<Longrightarrow> chans_in_order m \<Longrightarrow> chans_in_order m'"
proof -
  assume s: "newTxCallback fuel env m = Ok m'" and o: "chans_in_order m"
  show ?thesis
  proof (cases "stopped m = 0 \<and> canStart m = 1 \<and> mining m = 0")
    case False
    with s o show ?thesis by (auto simp: newTxCallback_def split: if_splits)
  next
    case True
    with s have "\<exists>e m1. NewMiningLoop fuel env (m\<lparr>mining := 1\<rparr>) = Ok (e, m1)
        \<and> (m' = m1\<lparr>mining := 0\<rparr> \<or> m' = m1)"
      by (auto simp: newTxCallback_def split: outcome.splits option.splits prod.splits)
    then obtain e m1 where n: "NewMiningLoop fuel env (m\<lparr>mining := 1\<rparr>) = Ok (e, m1)"
      and m': "m' = m1\<lparr>mining := 0\<rparr> \<or> m' = m1" by blast
    from in_order_cong [OF NewMiningLoop_same_chans [OF n]] o have "chans_in_order m1" by simp
    with m' show ?thesis by auto
  qed
qed

lemma callback_in_order:
  "downloaderEventCallback fuel env e m = Ok m' \<Longrightarrow> chans_in_order m \<Longrightarrow> chans_in_order m'"
proof -
  assume s: "downloaderEventCallback fuel env e m = Ok m'" and o: "chans_in_order m"
  show ?thesis
  proof (cases "isFirstDownloader m = 0")
    case True
    with s o show ?thesis by (simp add: downloaderEventCallback_def)
  next
    case False
    show ?thesis
    proof (cases e)
      case DownloaderStartEvent
      from stopMining_in_order [of "m\<lparr>canStart := 0\<rparr>"] o
      obtain m1 where "stopMining (m\<lparr>canStart := 0\<rparr>) = Ok m1" "chans_in_order m1" by auto
      with s False DownloaderStartEvent o show ?thesis
        by (auto simp: downloaderEventCallback_def Let_def split: if_splits)
    next
      case (OtherDownloaderEvent n)
      with s False o show ?thesis by (simp add: downloaderEventCallback_def)
    next
      case DownloaderDoneEvent
      with s False o show ?thesis
        by (auto simp: downloaderEventCallback_def Let_def split: if_splits outcome.splits prod.splits
            dest!: Start_in_order)
    next
      case DownloaderFailedEvent
      with s False o show ?thesis
        by (auto simp: downloaderEventCallback_def Let_def split: if_splits outcome.splits prod.splits
            dest!: Start_in_order)
    qed
  qed
qed

lemma step_in_order:
  "miner_step fuel env a m = Ok m' \<Longrightarrow> chans_in_order m \<Longrightarrow> chans_in_order m'"
proof (cases a)
  case (Downloader e)
  assume "miner_step fuel env a m = Ok m'" "chans_in_order m"
  with Downloader show ?thesis by (auto simp: miner_step_def dest: callback_in_order)
next
  case CallStart
  assume "miner_step fuel env a m = Ok m'" "chans_in_order m"
  with CallStart show ?thesis
    by (auto simp: miner_step_def split: outcome.splits prod.splits dest: Start_in_order)
next
  case CallStop
  assume s: "miner_step fuel env a m = Ok m'" and o: "chans_in_order m"
  from stopMining_in_order [of "m\<lparr>stopped := 1\<rparr>"] o
  obtain m1 where "stopMining (m\<lparr>stopped := 1\<rparr>) = Ok m1" "chans_in_order m1" by auto
  with s CallStop show ?thesis by (simp add: miner_step_def Miner_Stop_def)
next
  case TxInserted
  assume "miner_step fuel env a m = Ok m'" "chans_in_order m"
  with TxInserted show ?thesis by (auto simp: miner_step_def dest: newTx_in_order)
qed

lemma run_in_order:
  "miner_run fuel env acts m = Ok m' \<Longrightarrow> chans_in_order m \<Longrightarrow> chans_in_order m'"
proof (induction acts arbitrary: m)
  case Nil
  then show ?case by simp
next
  case (Cons a as)
  then show ?case
    by (auto split: outcome.splits dest: step_in_order)
qed

lemma NewMiner_in_order: "chans_in_order (NewMiner addr)"
  by (simp add: NewMiner_def chans_in_order_def)

lemma start_event_halts:
  assumes "chans_in_order m" and "isFirstDownloader m \<noteq> 0"
  shows "\<exists>m'. downloaderEventCallback fuel env DownloaderStartEvent m = Ok m'
           \<and> canStart m' = 0 \<and> \<not> IsMining m'
           \<and> (IsMining m \<longrightarrow> mining m' = 0 \<and> stopChan m' = None
                 \<and> (\<forall>c. stopChan m = Some c \<longrightarrow> c \<in> set (closed_chans m')))"
proof -
  from stopMining_in_order [of "m\<lparr>canStart := 0\<rparr>"] assms(1)
  obtain m1 where m1: "stopMining (m\<lparr>canStart := 0\<rparr>) = Ok m1" "mining m1 \<noteq> 1" "canStart m1 = 0"
    "mining m = 1 \<longrightarrow> mining m1 = 0 \<and> stopChan m1 = None
          \<and> (\<forall>c. stopChan m = Some c \<longrightarrow> c \<in> set (closed_chans m1))"
    by auto
  show ?thesis
  proof (cases "mining m = 1")
    case True
    with m1 assms(2) show ?thesis
      by (simp add: downloaderEventCallback_def IsMining_def Let_def)
  next
    case False
    with assms(2) show ?thesis
      by (simp add: downloaderEventCallback_def IsMining_def Let_def)
  qed
qed

text \<open>
  C3, as the claim states it, fails. The miner state after the first
  \<open>DownloaderDone\<close> event is reached from a new miner; it is mining; a
  \<open>DownloaderStart\<close> event received in it (the second download round) changes nothing:
  \<open>canStart\<close> stays 1 and the miner goes on mining.
\<close>

theorem DownloaderStart_ignored_after_first_round:
  "miner_run 1 (example_miner_env 0 count_up) [Downloader DownloaderDoneEvent] (NewMiner [])
     = Ok miner_after_first_round
   \<and> IsMining miner_after_first_round
   \<and> downloaderEventCallback 1 (example_miner_env 0 count_up) DownloaderStartEvent
       miner_after_first_round = Ok miner_after_first_round
   \<and> canStart miner_after_first_round = 1"
proof -
  have "miner_run 1 (example_miner_env 0 count_up) [Downloader DownloaderDoneEvent] (NewMiner [])
          = Ok miner_after_first_round"
    by (simp add: miner_step_def downloaderEventCallback_def Start_def NewMiningLoop_def
        getMiningKey_def getMiningKey_chain_def Intn_def numOfChains_def NewMiner_def
        example_miner_env_def StartHeightOfGetMiningKeyFromChain_def Let_def
        miner_after_first_round_def upt_rec int2bytes_def getChainNumByMiningKey_def count_up_def)
  moreover have "IsMining miner_after_first_round" "canStart miner_after_first_round = 1"
    by (simp_all add: IsMining_def miner_after_first_round_def)
  moreover have "downloaderEventCallback 1 (example_miner_env 0 count_up) DownloaderStartEvent
       miner_after_first_round = Ok miner_after_first_round"
    by (simp add: downloaderEventCallback_def miner_after_first_round_def)
  ultimately show ?thesis by simp
qed

text \<open>
  C3, amended. In every miner state reached from a new miner in which
  \<open>isFirstDownloader\<close> is still set (no \<open>DownloaderDone\<close> or
  \<open>DownloaderFailed\<close> event has been handled yet), receipt of a \<open>DownloaderStart\<close>
  event sets \<open>canStart\<close> to 0 and leaves the miner not mining: if it was mining, the
  flag \<open>mining\<close> is reset, the stop channel is closed and the field cleared. Once the
  first \<open>DownloaderDone\<close> or \<open>DownloaderFailed\<close> event has been handled
  (\<open>isFirstDownloader\<close> is 0), the callback ignores every downloader event.
\<close>

theorem DownloaderStart_halts_miner_in_first_round:
  "(miner_run fuel0 env0 acts (NewMiner addr) = Ok m \<and> isFirstDownloader m \<noteq> 0
      \<longrightarrow> (\<exists>m'. downloaderEventCallback fuel env DownloaderStartEvent m = Ok m'
             \<and> canStart m' = 0 \<and> \<not> IsMining m'
             \<and> (IsMining m \<longrightarrow> mining m' = 0 \<and> stopChan m' = None
                   \<and> (\<forall>c. stopChan m = Some c \<longrightarrow> c \<in> set (closed_chans m')))))
   \<and> (isFirstDownloader m2 = 0 \<longrightarrow> downloaderEventCallback fuel2 env2 e m2 = Ok m2)"
proof (intro conjI impI)
  assume a: "miner_run fuel0 env0 acts (NewMiner addr) = Ok m \<and> isFirstDownloader m \<noteq> 0"
  then have "chans_in_order m" using run_in_order NewMiner_in_order by blast
  with a show "\<exists>m'. downloaderEventCallback fuel env DownloaderStartEvent m = Ok m'
             \<and> canStart m' = 0 \<and> \<not> IsMining m'
             \<and> (IsMining m \<longrightarrow> mining m' = 0 \<and> stopChan m' = None
                   \<and> (\<forall>c. stopChan m = Some c \<longrightarrow> c \<in> set (closed_chans m')))"
    using start_event_halts by blast
next
  assume "isFirstDownloader m2 = 0"
  then show "downloaderEventCallback fuel2 env2 e m2 = Ok m2"
    by (simp add: downloaderEventCallback_def)
qed

theorem DownloaderStart_halts_miner_in_first_round_witness:
  "(\<exists>m'. downloaderEventCallback 1 (example_miner_env 0 count_up) DownloaderStartEvent miner_started
            = Ok m'
       \<and> canStart m' = 0 \<and> \<not> IsMining m' \<and> mining m' = 0 \<and> stopChan m' = None
       \<and> 0 \<in> set (closed_chans m'))
   \<and> downloaderEventCallback 1 (example_miner_env 0 count_up) DownloaderDoneEvent
       miner_after_first_round = Ok miner_after_first_round"
proof -
  have a: "miner_run 1 (example_miner_env 0 count_up) [CallStart] (NewMiner []) = Ok miner_started"
    by (simp add: miner_step_def Start_def NewMiningLoop_def
        getMiningKey_def getMiningKey_chain_def Intn_def numOfChains_def NewMiner_def
        example_miner_env_def StartHeightOfGetMiningKeyFromChain_def Let_def
        miner_started_def upt_rec int2bytes_def getChainNumByMiningKey_def count_up_def)
  have b: "isFirstDownloader miner_started \<noteq> 0" "IsMining miner_started"
    "stopChan miner_started = Some 0" "isFirstDownloader miner_after_first_round = 0"
    by (simp_all add: miner_started_def miner_after_first_round_def IsMining_def)
  show ?thesis
    using DownloaderStart_halts_miner_in_first_round [where ?fuel0.0 = 1
        and ?env0.0 = "example_miner_env 0 count_up" and acts = "[CallStart]" and addr = "[]"
        and m = miner_started and fuel = 1 and env = "example_miner_env 0 count_up"
        and ?m2.0 = miner_after_first_round and ?fuel2.0 = 1
        and ?env2.0 = "example_miner_env 0 count_up" and e = DownloaderDoneEvent] a b
    by auto
qed

section \<open>Properties of the key mining\<close>

lemma sampled:
  assumes "chain_height env i > StartHeightOfGetMiningKeyFromChain"
    and "i < length heights" and "i < length txHashes"
    and "getMiningKey_chain env i heights txHashes m = Ok (Filled hs ts, m')"
  shows "(hs ! i = chain_height env i - 3 \<or> hs ! i = chain_height env i - 2)
       \<and> hs ! i \<noteq> chain_height env i - 1
       \<and> (\<exists>b. chain_GetBlockByHeight env i (hs ! i) = Inr b \<and> ts ! i \<in> tx_Hash ` set (Transactions b))"
proof -
  define r where "r = rand_draw env (rand_pos m) mod 2"
  define h where "h = (word_of_nat r :: u64) + chain_height env i - 3"
  have r2: "r = 0 \<or> r = 1" unfolding r_def by arith
  from assms(1,4) have "\<exists>b. chain_GetBlockByHeight env i h = Inr b \<and> Transactions b \<noteq> []
      \<and> hs = heights[i := h]
      \<and> ts = txHashes[i := tx_Hash (Transactions b !
                 (rand_draw env (Suc (rand_pos m)) mod length (Transactions b)))]"
    by (auto simp: getMiningKey_chain_def Let_def Intn_def h_def r_def longDist_def shortDist_def
        split: sum.splits if_splits)
  then obtain b where b: "chain_GetBlockByHeight env i h = Inr b"
    and ne: "Transactions b \<noteq> []"
    and hs: "hs = heights[i := h]"
    and ts: "ts = txHashes[i := tx_Hash (Transactions b !
                 (rand_draw env (Suc (rand_pos m)) mod length (Transactions b)))]"
    by blast
  define idx where "idx = rand_draw env (Suc (rand_pos m)) mod length (Transactions b)"
  have idx: "idx < length (Transactions b)" using ne by (simp add: idx_def)
  have hsi: "hs ! i = h" using hs assms(2) by simp
  have tsi: "ts ! i = tx_Hash (Transactions b ! idx)" using ts assms(3) by (simp add: idx_def)
  have hv: "h = chain_height env i - 3 \<or> h = chain_height env i - 2"
    using r2 by (auto simp: h_def)
  have hn: "h \<noteq> chain_height env i - 1"
    using r2 by (auto simp: h_def)
  show ?thesis using hsi tsi hv hn b idx by auto
qed

text \<open>
  C4. What the code does where the claim expects a choice among the three heights
  \<open>h - 3\<close>, \<open>h - 2\<close>, \<open>h - 1\<close>: for a chain whose head height \<open>h\<close> exceeds 4,
  whenever \<open>getMiningKey\<close> fills the arrays for the chain, the height it recorded is
  \<open>h - 3\<close> or \<open>h - 2\<close> and never \<open>h - 1\<close>, whatever the random source
  (\<open>rand.Intn(longDist - shortDist)\<close> draws from \<open>{0, 1}\<close>); the hash recorded with
  it is the hash of a transaction of the block at the recorded height.
\<close>

theorem getMiningKey_never_samples_nearest_height:
  assumes "chain_height env i > StartHeightOfGetMiningKeyFromChain"
    and "i < length heights" and "i < length txHashes"
    and "getMiningKey_chain env i heights txHashes m = Ok (Filled hs ts, m')"
  shows "(hs ! i = chain_height env i - 3 \<or> hs ! i = chain_height env i - 2)
       \<and> hs ! i \<noteq> chain_height env i - 1
       \<and> (\<exists>b. chain_GetBlockByHeight env i (hs ! i) = Inr b \<and> ts ! i \<in> tx_Hash ` set (Transactions b))"
  using sampled [OF assms] .

theorem getMiningKey_never_samples_nearest_height_witness:
  "getMiningKey_chain (example_miner_env 10 count_up) 0 [0, 0, 0] [0, 0, 0] (NewMiner [])
     = Ok (Filled [7, 0, 0] [15, 0, 0], (NewMiner [])\<lparr>rand_pos := 2\<rparr>)
   \<and> [7, 0, 0] ! 0 \<noteq> chain_height (example_miner_env 10 count_up) 0 - 1
   \<and> (\<exists>b. chain_GetBlockByHeight (example_miner_env 10 count_up) 0 ([7, 0, 0] ! 0) = Inr b
         \<and> [15, 0, 0 :: Hash] ! 0 \<in> tx_Hash ` set (Transactions b))"
proof -
  have a: "getMiningKey_chain (example_miner_env 10 count_up) 0 [0, 0, 0] [0, 0, 0] (NewMiner [])
     = Ok (Filled [7, 0, 0] [15, 0, 0], (NewMiner [])\<lparr>rand_pos := 2\<rparr>)"
    by (simp add: getMiningKey_chain_def Intn_def example_miner_env_def
        StartHeightOfGetMiningKeyFromChain_def Let_def longDist_def shortDist_def count_up_def
        example_block_def NewMiner_def)
  have b: "chain_height (example_miner_env 10 count_up) 0 > StartHeightOfGetMiningKeyFromChain"
    by (simp add: example_miner_env_def StartHeightOfGetMiningKeyFromChain_def)
  show ?thesis
    using getMiningKey_never_samples_nearest_height [OF b _ _ a] a by simp
qed

lemma never_min_loop:
  "mn < nonce \<Longrightarrow> nonce \<le> mx \<Longrightarrow> mn \<notin> set (hashed k) \<Longrightarrow>
   mn \<notin> set (hashed (snd (snd (StartMiningForKey_loop fuel env target seed mn mx nonce (m, k)))))"
proof (induction fuel arbitrary: nonce m k)
  case 0
  then show ?case by simp
next
  case (Suc fuel)
  define nonce1 where "nonce1 = (if nonce = mx then mn else nonce)"
  have n1: "mn < nonce1 + 1" "nonce1 + 1 \<le> mx"
    using Suc.prems(1,2) unfolding nonce1_def by (auto; unat_arith)+
  define k1 where "k1 = k\<lparr>dataPack := (dataPack k)\<lparr>dp_Nonce := nonce\<rparr>, hashed := hashed k @ [nonce]\<rparr>"
  have k1: "mn \<notin> set (hashed k1)" using Suc.prems by (auto simp: k1_def)
  have ih: "\<And>m'. mn \<notin> set (hashed (snd (snd (StartMiningForKey_loop fuel env target seed mn mx (nonce1 + 1) (m', k1)))))"
    using Suc.IH [OF n1 k1] .
  show ?case
    using Suc.prems k1 ih
    by (auto simp add: Let_def poll_stop_def k1_def nonce1_def split: prod.splits)
qed

lemma never_ends_loop:
  assumes "mn < mx" and "isNonceFound k = 0" and "\<forall>p. \<not> stop_closed env p"
    and "\<forall>dp. \<not> uint (MustHash env dp) \<le> target"
  shows "mn \<le> nonce \<Longrightarrow> nonce \<le> mx \<Longrightarrow> isNonceFound k = 0 \<Longrightarrow>
    fst (StartMiningForKey_loop fuel env target mn mn mx nonce (m, k)) = None"
proof (induction fuel arbitrary: nonce m k)
  case 0
  then show ?case by simp
next
  case (Suc fuel)
  define nonce1 where "nonce1 = (if nonce = mx then mn else nonce)"
  have n1: "mn \<le> nonce1 + 1" "nonce1 + 1 \<le> mx" "nonce1 \<noteq> mn - 1"
    using Suc.prems(1,2) assms(1) unfolding nonce1_def by (auto; unat_arith)+
  define k1 where "k1 = k\<lparr>dataPack := (dataPack k)\<lparr>dp_Nonce := nonce\<rparr>, hashed := hashed k @ [nonce]\<rparr>"
  have k1: "isNonceFound k1 = 0" using Suc.prems by (simp add: k1_def)
  have ih: "\<And>m'. fst (StartMiningForKey_loop fuel env target mn mn mx (nonce1 + 1) (m', k1)) = None"
    using Suc.IH [OF n1(1,2) k1] .
  show ?case
    using Suc.prems(3) assms(3,4) n1(3) ih
    by (simp add: Let_def poll_stop_def k1_def nonce1_def split: prod.splits)
qed

lemma outage_after_wrap:
  assumes nostop: "\<forall>p. \<not> stop_closed env p"
    and nowin: "\<forall>dp. \<not> uint (MustHash env dp) \<le> target"
    and "seed \<le> mx"
  shows "mn < n \<Longrightarrow> n < seed \<Longrightarrow> isNonceFound k = 0 \<Longrightarrow> d = unat seed - unat n \<Longrightarrow>
    fst (StartMiningForKey_loop d env target seed mn mx n (m, k)) = Some Outage
    \<and> hashed (snd (snd (StartMiningForKey_loop d env target seed mn mx n (m, k))))
        = hashed k @ map word_of_nat [unat n..<unat seed]"
proof (induction d arbitrary: n m k)
  case 0
  then have "unat n < unat seed" by (simp add: word_less_nat_alt)
  with 0 show ?case by simp
next
  case (Suc d)
  have nmx: "n \<noteq> mx" using Suc.prems(2) assms(3) by auto
  define k1 where "k1 = k\<lparr>dataPack := (dataPack k)\<lparr>dp_Nonce := n\<rparr>, hashed := hashed k @ [n]\<rparr>"
  have un: "unat n < unat seed" using Suc.prems(2) by (simp add: word_less_nat_alt)
  show ?case
  proof (cases "n = seed - 1")
    case True
    then have "unat seed = Suc (unat n)" using Suc.prems(2) by unat_arith
    then have l: "[unat n..<unat seed] = [unat n]" by simp
    show ?thesis
      using True nmx nostop nowin Suc.prems(3) l
      by (simp add: Let_def poll_stop_def split: prod.splits)
  next
    case False
    have a: "mn < n + 1" "n + 1 < seed" using Suc.prems(1,2) False by unat_arith+
    have u: "unat (n + 1) = Suc (unat n)" using Suc.prems(2) by unat_arith
    have dd: "d = unat seed - unat (n + 1)" using Suc.prems(4) u by simp
    have k1: "isNonceFound k1 = 0" using Suc.prems(3) by (simp add: k1_def)
    have ih: "\<And>m'. fst (StartMiningForKey_loop d env target seed mn mx (n + 1) (m', k1)) = Some Outage
      \<and> hashed (snd (snd (StartMiningForKey_loop d env target seed mn mx (n + 1) (m', k1))))
        = hashed k1 @ map word_of_nat [unat (n + 1)..<unat seed]"
      using Suc.IH [OF a k1 dd] .
    have l: "[unat n..<unat seed] = unat n # [Suc (unat n)..<unat seed]"
      using un by (simp add: upt_conv_Cons)
    show ?thesis
      using False nmx nostop nowin Suc.prems(3) ih u l
      by (simp add: Let_def poll_stop_def k1_def split: prod.splits)
  qed
qed

lemma outage_from_seed:
  assumes nostop: "\<forall>p. \<not> stop_closed env p"
    and nowin: "\<forall>dp. \<not> uint (MustHash env dp) \<le> target"
    and "mn < seed"
  shows "seed \<le> n \<Longrightarrow> n \<le> mx \<Longrightarrow> isNonceFound k = 0 \<Longrightarrow> d = unat mx - unat n \<Longrightarrow>
    fst (StartMiningForKey_loop (d + (unat seed - unat mn)) env target seed mn mx n (m, k)) = Some Outage
    \<and> hashed (snd (snd (StartMiningForKey_loop (d + (unat seed - unat mn)) env target seed mn mx n (m, k))))
        = hashed k @ map word_of_nat [unat n..<Suc (unat mx)] @ map word_of_nat [Suc (unat mn)..<unat seed]"
proof (induction d arbitrary: n m k)
  case 0
  then have nmx: "n = mx" by unat_arith
  have smx: "seed \<le> mx" using 0 by simp
  define k1 where "k1 = k\<lparr>dataPack := (dataPack k)\<lparr>dp_Nonce := n\<rparr>, hashed := hashed k @ [n]\<rparr>"
  have k1: "isNonceFound k1 = 0" using 0 by (simp add: k1_def)
  have us: "unat mn < unat seed" using assms(3) by (simp add: word_less_nat_alt)
  then obtain f where f: "unat seed - unat mn = Suc f" by (cases "unat seed - unat mn") auto
  show ?case
  proof (cases "mn = seed - 1")
    case True
    then have "unat seed = Suc (unat mn)" using assms(3) by unat_arith
    then have l: "[Suc (unat mn)..<unat seed] = []" by simp
    show ?thesis
      using True nmx nostop nowin 0 l f
      by (simp add: Let_def poll_stop_def split: prod.splits)
  next
    case False
    have a: "mn < mn + 1" "mn + 1 < seed" using assms(3) False by unat_arith+
    have u: "unat (mn + 1) = Suc (unat mn)" using assms(3) by unat_arith
    have ff: "f = unat seed - unat (mn + 1)" using f u by simp
    have b: "\<And>m'. fst (StartMiningForKey_loop f env target seed mn mx (mn + 1) (m', k1)) = Some Outage
      \<and> hashed (snd (snd (StartMiningForKey_loop f env target seed mn mx (mn + 1) (m', k1))))
        = hashed k1 @ map word_of_nat [unat (mn + 1)..<unat seed]"
      using outage_after_wrap [OF nostop nowin smx a k1 ff] .
    show ?thesis
      using False nmx nostop nowin 0 b u f
      by (simp add: Let_def poll_stop_def k1_def split: prod.splits)
  qed
next
  case (Suc d)
  have nmx: "n \<noteq> mx" "unat n < unat mx" using Suc.prems(4) by auto
  have ns: "n \<noteq> seed - 1" using Suc.prems(1) assms(3) by unat_arith
  define k1 where "k1 = k\<lparr>dataPack := (dataPack k)\<lparr>dp_Nonce := n\<rparr>, hashed := hashed k @ [n]\<rparr>"
  have k1: "isNonceFound k1 = 0" using Suc.prems(3) by (simp add: k1_def)
  have u: "unat (n + 1) = Suc (unat n)" using nmx(2) by unat_arith
  have a: "seed \<le> n + 1" "n + 1 \<le> mx" using Suc.prems(1,2) nmx by unat_arith+
  have dd: "d = unat mx - unat (n + 1)" using Suc.prems(4) u by simp
  have ih: "\<And>m'. fst (StartMiningForKey_loop (d + (unat seed - unat mn)) env target seed mn mx (n + 1) (m', k1)) = Some Outage
    \<and> hashed (snd (snd (StartMiningForKey_loop (d + (unat seed - unat mn)) env target seed mn mx (n + 1) (m', k1))))
        = hashed k1 @ map word_of_nat [unat (n + 1)..<Suc (unat mx)] @ map word_of_nat [Suc (unat mn)..<unat seed]"
    using Suc.IH [OF a k1 dd] .
  have l: "[unat n..<Suc (unat mx)] = unat n # [Suc (unat n)..<Suc (unat mx)]"
    using nmx(2) by (simp add: upt_conv_Cons)
  show ?case
    using nmx ns nostop nowin Suc.prems(3) ih u l
    by (simp add: Let_def poll_stop_def k1_def split: prod.splits)
qed

text \<open>
  C5. What the code does where the claim expects every nonce of the range to be
  visited once and an outage to be reported. (1) When the seed is above \<open>min\<close>, the
  nonce \<open>min\<close> is never hashed: on reaching \<open>max\<close> the nonce is set to \<open>min\<close>
  and incremented before the next hash. (2) When the seed is \<open>min\<close> (and the range has
  more than one nonce), no nonce wins and nobody stops the miner, the loop never exits:
  whatever the fuel, it is still running when the fuel is used up. (3) When the seed is
  above \<open>min\<close>, no nonce wins and nobody stops the miner, the loop exits with an outage
  after \<open>max - min\<close> iterations, having hashed the nonces from the seed to \<open>max\<close>
  and then those from \<open>min + 1\<close> to \<open>seed - 1\<close>, each once.
\<close>

theorem StartMiningForKey_skips_min_or_never_ends:
  "(mn < seed \<and> seed \<le> mx \<and> mn \<notin> set (hashed k)
      \<longrightarrow> mn \<notin> set (hashed (snd (snd (StartMiningForKey fuel env seed mn mx (m, k))))))
   \<and> (mn < mx \<and> isNonceFound k = 0 \<and> (\<forall>p. \<not> stop_closed env p)
       \<and> (\<forall>dp. \<not> uint (MustHash env dp) \<le> GetMiningTarget env 30000000)
      \<longrightarrow> fst (StartMiningForKey fuel env mn mn mx (m, k)) = None)
   \<and> (mn < seed \<and> seed \<le> mx \<and> isNonceFound k = 0 \<and> (\<forall>p. \<not> stop_closed env p)
       \<and> (\<forall>dp. \<not> uint (MustHash env dp) \<le> GetMiningTarget env 30000000)
      \<longrightarrow> fst (StartMiningForKey (unat mx - unat mn) env seed mn mx (m, k)) = Some Outage
          \<and> hashed (snd (snd (StartMiningForKey (unat mx - unat mn) env seed mn mx (m, k))))
              = hashed k @ map word_of_nat ([unat seed..<Suc (unat mx)] @ [Suc (unat mn)..<unat seed]))"
proof (intro conjI impI)
  assume "mn < seed \<and> seed \<le> mx \<and> mn \<notin> set (hashed k)"
  then show "mn \<notin> set (hashed (snd (snd (StartMiningForKey fuel env seed mn mx (m, k)))))"
    unfolding StartMiningForKey_def using never_min_loop by blast
next
  assume a: "mn < mx \<and> isNonceFound k = 0 \<and> (\<forall>p. \<not> stop_closed env p)
       \<and> (\<forall>dp. \<not> uint (MustHash env dp) \<le> GetMiningTarget env 30000000)"
  then have b: "mn \<le> mn" "mn \<le> mx" by (auto intro: less_imp_le)
  from a show "fst (StartMiningForKey fuel env mn mn mx (m, k)) = None"
    unfolding StartMiningForKey_def
    using never_ends_loop [of mn mx k env "GetMiningTarget env 30000000" mn fuel m] b by blast
next
  assume a: "mn < seed \<and> seed \<le> mx \<and> isNonceFound k = 0 \<and> (\<forall>p. \<not> stop_closed env p)
       \<and> (\<forall>dp. \<not> uint (MustHash env dp) \<le> GetMiningTarget env 30000000)"
  then have u: "unat mn < unat seed" "unat seed \<le> unat mx"
    by (simp_all add: word_less_nat_alt word_le_nat_alt)
  then have f: "unat mx - unat mn = (unat mx - unat seed) + (unat seed - unat mn)" by simp
  from a have p: "\<forall>p. \<not> stop_closed env p"
    "\<forall>dp. \<not> uint (MustHash env dp) \<le> GetMiningTarget env 30000000"
    "mn < seed" "seed \<le> seed" "seed \<le> mx" "isNonceFound k = 0" by simp_all
  have r: "fst (StartMiningForKey_loop ((unat mx - unat seed) + (unat seed - unat mn)) env
                  (GetMiningTarget env 30000000) seed mn mx seed (m, k)) = Some Outage
      \<and> hashed (snd (snd (StartMiningForKey_loop ((unat mx - unat seed) + (unat seed - unat mn)) env
                  (GetMiningTarget env 30000000) seed mn mx seed (m, k))))
          = hashed k @ map word_of_nat [unat seed..<Suc (unat mx)]
              @ map word_of_nat [Suc (unat mn)..<unat seed]"
    by (rule outage_from_seed [OF p(1,2,3,4,5,6) refl])
  from r show "fst (StartMiningForKey (unat mx - unat mn) env seed mn mx (m, k)) = Some Outage"
    unfolding StartMiningForKey_def f by simp
  from r show "hashed (snd (snd (StartMiningForKey (unat mx - unat mn) env seed mn mx (m, k))))
              = hashed k @ map word_of_nat ([unat seed..<Suc (unat mx)] @ [Suc (unat mn)..<unat seed])"
    unfolding StartMiningForKey_def f by simp
qed

theorem StartMiningForKey_skips_min_or_never_ends_witness:
  "StartMiningForKey 20 (example_miner_env 0 count_up) 5 0 10 (NewMiner [], empty_pack)
     = (Some Outage, (NewMiner [])\<lparr>polls := 11\<rparr>,
        empty_pack\<lparr>dataPack := (dataPack empty_pack)\<lparr>dp_Nonce := 4\<rparr>,
                   hashed := [5, 6, 7, 8, 9, 10, 1, 2, 3, 4]\<rparr>)
   \<and> 0 \<notin> set (hashed (snd (snd
        (StartMiningForKey 20 (example_miner_env 0 count_up) 5 0 10 (NewMiner [], empty_pack)))))
   \<and> fst (StartMiningForKey 20 (example_miner_env 0 count_up) 0 0 2 (NewMiner [], empty_pack)) = None
   \<and> fst (StartMiningForKey 10 (example_miner_env 0 count_up) 5 0 10 (NewMiner [], empty_pack))
       = Some Outage"
proof -
  have a: "StartMiningForKey 20 (example_miner_env 0 count_up) 5 0 10 (NewMiner [], empty_pack)
     = (Some Outage, (NewMiner [])\<lparr>polls := 11\<rparr>,
        empty_pack\<lparr>dataPack := (dataPack empty_pack)\<lparr>dp_Nonce := 4\<rparr>,
                   hashed := [5, 6, 7, 8, 9, 10, 1, 2, 3, 4]\<rparr>)"
    by code_simp
  have b: "(0::u64) < 5" "(5::u64) \<le> 10" "(0::u64) < 2" "0 \<notin> set (hashed empty_pack)"
    "isNonceFound empty_pack = 0"
    by (simp_all add: empty_pack_def)
  have c: "\<forall>p. \<not> stop_closed (example_miner_env 0 count_up) p"
    by (simp add: example_miner_env_def)
  have d: "\<forall>dp. \<not> uint (MustHash (example_miner_env 0 count_up) dp)
                  \<le> GetMiningTarget (example_miner_env 0 count_up) 30000000"
    by (simp add: example_miner_env_def unsigned_minus_1_eq_mask mask_eq_exp_minus_1)
  show ?thesis
    using StartMiningForKey_skips_min_or_never_ends [where mn = 0 and seed = 5 and mx = 10
        and k = empty_pack and fuel = 20 and env = "example_miner_env 0 count_up" and m = "NewMiner []"]
      StartMiningForKey_skips_min_or_never_ends [where mn = 0 and seed = 5 and mx = 2
        and k = empty_pack and fuel = 20 and env = "example_miner_env 0 count_up" and m = "NewMiner []"]
      a b c d
    by simp
qed


end
